theory Spec2Isabelle
  imports Main "HOL-Library.Word"
begin

unbundle bit_operations_syntax

section \<open>Data model of the block cache (cache2.h)\<close>

text \<open>
  Modelled from the spec: the type \<open>sec_t\<close> is declared in a header of the platform
  library that is not part of the sources; the specification fixes sector numbers to
  64 bits. \<open>unsigned int\<close>, \<open>u32\<close> and \<open>size_t\<close> are the 32-bit types of the
  PowerPC targets the Makefile builds for.
\<close>

type_synonym sec_t = "64 word"
type_synonym uint = "32 word"
type_synonym size_t = "32 word"
type_synonym byte = "8 word"

text \<open>\<open>#define CACHE_FREE ((sec_t)-1)\<close>, the 64-bit word of all ones.\<close>

definition CACHE_FREE :: sec_t where
  "CACHE_FREE = 0xFFFFFFFFFFFFFFFF"

text \<open>\<open>UINT_MAX\<close> of \<open>limits.h\<close> for a 32-bit \<open>unsigned int\<close>.\<close>

definition UINT_MAX :: uint where
  "UINT_MAX = 0xFFFFFFFF"

text \<open>
  \<open>NTFS_CACHE_ENTRY\<close>. The field \<open>cache\<close> points to the page buffer; the model keeps
  the bytes the pointer addresses, and \<open>None\<close> for a null pointer.
\<close>

record NTFS_CACHE_ENTRY =
  sector :: sec_t
  count :: uint
  last_access :: uint
  dirty :: "64 word"
  cache :: "byte list option"

text \<open>
  \<open>DISC_INTERFACE\<close>: the two function pointers the cache calls. The device has a state
  of its own (type \<open>'d\<close>); a read returns the success flag and the bytes it stored in
  the buffer it was given, a write receives the bytes behind the pointer it was given.
\<close>

record 'd DISC_INTERFACE =
  readSectors :: "'d \<Rightarrow> sec_t \<Rightarrow> sec_t \<Rightarrow> bool \<times> byte list \<times> 'd"
  writeSectors :: "'d \<Rightarrow> sec_t \<Rightarrow> sec_t \<Rightarrow> byte list \<Rightarrow> bool \<times> 'd"

record 'd NTFS_CACHE =
  disc :: "'d DISC_INTERFACE"
  endOfPartition :: sec_t
  numberOfPages :: uint
  sectorsPerPage :: uint
  bytesPerSector :: uint
  cacheEntries :: "NTFS_CACHE_ENTRY list"

text \<open>
  What the cache functions touch outside the cache object: the file-level variable
  \<open>static u32 accessCounter\<close>, the block device, and (for the claims that count
  device calls) the list of the device calls issued so far, each with its first
  sector, its number of sectors and the flag the device returned.
\<close>

datatype io_call = DevRead sec_t sec_t bool | DevWrite sec_t sec_t bool

record 'd env =
  accessCounter :: uint
  device :: 'd
  io_log :: "io_call list"

subsection \<open>Memory and device primitives\<close>

text \<open>
  \<open>memcpy\<close> out of and into a buffer at a byte offset. Memory outside a buffer is not
  part of the model: a copy out of a buffer yields the bytes that lie inside it, a copy
  into one replaces the bytes from the offset on (the list grows when the copy ends behind
  it), and a copy through a null pointer moves no byte.
\<close>

definition fetch :: "byte list \<Rightarrow> nat \<Rightarrow> nat \<Rightarrow> byte list" where
  "fetch b off len = take len (drop off b)"

definition store :: "byte list \<Rightarrow> nat \<Rightarrow> byte list \<Rightarrow> byte list" where
  "store b off bs = take off b @ bs @ drop (off + length bs) b"

definition buf_fetch :: "byte list option \<Rightarrow> nat \<Rightarrow> nat \<Rightarrow> byte list" where
  "buf_fetch p off len = (case p of None \<Rightarrow> [] | Some b \<Rightarrow> fetch b off len)"

definition buf_store :: "byte list option \<Rightarrow> nat \<Rightarrow> byte list \<Rightarrow> byte list option" where
  "buf_store p off bs = map_option (\<lambda>b. store b off bs) p"

definition dev_write ::
  "'d DISC_INTERFACE \<Rightarrow> 'd env \<Rightarrow> sec_t \<Rightarrow> sec_t \<Rightarrow> byte list \<Rightarrow> bool \<times> 'd env" where
  "dev_write d env s n bs =
     (case writeSectors d (device env) s n bs of
        (ok, dev') \<Rightarrow> (ok, env\<lparr>device := dev', io_log := io_log env @ [DevWrite s n ok]\<rparr>))"

definition dev_read ::
  "'d DISC_INTERFACE \<Rightarrow> 'd env \<Rightarrow> sec_t \<Rightarrow> sec_t \<Rightarrow> bool \<times> byte list \<times> 'd env" where
  "dev_read d env s n =
     (case readSectors d (device env) s n of
        (ok, bs, dev') \<Rightarrow> (ok, bs, env\<lparr>device := dev', io_log := io_log env @ [DevRead s n ok]\<rparr>))"

text \<open>\<open>accessTime\<close>: increment the counter (wrapping at 32 bits) and return it.\<close>

definition accessTime :: "'d env \<Rightarrow> uint \<times> 'd env" where
  "accessTime env = (accessCounter env + 1, env\<lparr>accessCounter := accessCounter env + 1\<rparr>)"

text \<open>
  Modelled from the spec: \<open>ffsll\<close> and \<open>flsll\<close> come from the C library. They return
  one plus the index of the lowest, respectively highest, set bit, and 0 for 0.
\<close>

definition ffsll :: "64 word \<Rightarrow> sec_t" where
  "ffsll x = (case List.find (bit x) [0..<64] of None \<Rightarrow> 0 | Some k \<Rightarrow> of_nat (Suc k))"

definition flsll :: "64 word \<Rightarrow> sec_t" where
  "flsll x = (case List.find (bit x) (rev [0..<64]) of None \<Rightarrow> 0 | Some k \<Rightarrow> of_nat (Suc k))"

section \<open>Replacement policy and page population (\<open>_NTFS_cache_getPage\<close>)\<close>

text \<open>
  The scan of lines 130 to 141. The result is either the index of the slot that holds the
  sector, or the values of \<open>foundFree\<close> and \<open>oldUsed\<close> when the loop ends.
\<close>

datatype scan_result = Hit nat | Miss bool nat

definition covers :: "NTFS_CACHE_ENTRY \<Rightarrow> sec_t \<Rightarrow> bool" where
  "covers e t \<longleftrightarrow> t \<ge> sector e \<and> t < sector e + ucast (count e)"

fun scanPages ::
  "NTFS_CACHE_ENTRY list \<Rightarrow> sec_t \<Rightarrow> nat \<Rightarrow> bool \<Rightarrow> nat \<Rightarrow> uint \<Rightarrow> scan_result" where
  "scanPages [] t i foundFree oldUsed oldAccess = Miss foundFree oldUsed"
| "scanPages (e # es) t i foundFree oldUsed oldAccess =
     (if covers e t then Hit i
      else if \<not> foundFree \<and> (sector e = CACHE_FREE \<or> last_access e < oldAccess)
      then scanPages es t (Suc i) (sector e = CACHE_FREE) i (last_access e)
      else scanPages es t (Suc i) foundFree oldUsed oldAccess)"

text \<open>
  The write of the dirty span of a slot (lines 144 to 147, and again 405 to 408): one
  device write from the lowest to the highest dirty sector.
\<close>

definition writeback :: "'d NTFS_CACHE \<Rightarrow> NTFS_CACHE_ENTRY \<Rightarrow> 'd env \<Rightarrow> bool \<times> 'd env" where
  "writeback c e env =
     (let sec = ffsll (dirty e) - 1;
          secs_to_write = flsll (dirty e) - sec
      in dev_write (disc c) env (sector e + sec) secs_to_write
           (buf_fetch (cache e) (unat (sec * ucast (bytesPerSector c)))
              (unat (secs_to_write * ucast (bytesPerSector c)))))"

text \<open>Lines 143 to 150: the victim is written back when it is in use and dirty.\<close>

definition evict ::
  "'d NTFS_CACHE \<Rightarrow> bool \<Rightarrow> NTFS_CACHE_ENTRY \<Rightarrow> 'd env \<Rightarrow> NTFS_CACHE_ENTRY option \<times> 'd env" where
  "evict c foundFree e env =
     (if \<not> foundFree \<and> dirty e \<noteq> 0
      then (case writeback c e env of
              (ok, env') \<Rightarrow> if ok then (Some (e\<lparr>dirty := 0\<rparr>), env') else (None, env'))
      else (Some e, env))"

text \<open>
  Lines 152 to 156: the new base sector and sector count of the victim. The count is
  assigned to an \<open>unsigned int\<close> before it is compared with the page size.
\<close>

definition rebase :: "'d NTFS_CACHE \<Rightarrow> NTFS_CACHE_ENTRY \<Rightarrow> sec_t \<Rightarrow> NTFS_CACHE_ENTRY" where
  "rebase c e t =
     (let base = (t div ucast (sectorsPerPage c)) * ucast (sectorsPerPage c);
          cnt = (ucast (endOfPartition c - base) :: uint)
      in e\<lparr>sector := base,
            count := (if cnt > sectorsPerPage c then sectorsPerPage c else cnt)\<rparr>)"

text \<open>Line 157: the number of sectors of the request that fall into the page.\<close>

definition clampSectors :: "sec_t \<Rightarrow> sec_t \<Rightarrow> sec_t \<Rightarrow> sec_t" where
  "clampSectors numSectors cnt local =
     (if numSectors > cnt - local then cnt - local else numSectors)"

text \<open>
  Lines 159 to 172: the part of the page to read, as first sector and number of sectors
  inside the page; \<open>None\<close> when the function returns without reading.
\<close>

definition readWindow :: "bool \<Rightarrow> sec_t \<Rightarrow> sec_t \<Rightarrow> sec_t \<Rightarrow> (sec_t \<times> sec_t) option" where
  "readWindow write local numSectors cnt =
     (if write then
        (if local = 0 \<and> numSectors = cnt then None
         else if local = 0 then Some (numSectors, cnt - numSectors)
         else if local + numSectors = 0 + cnt then Some (0, cnt - numSectors)
         else Some (0, cnt))
      else Some (0, cnt))"

definition setEntry :: "'d NTFS_CACHE \<Rightarrow> nat \<Rightarrow> NTFS_CACHE_ENTRY \<Rightarrow> 'd NTFS_CACHE" where
  "setEntry c i e = c\<lparr>cacheEntries := (cacheEntries c)[i := e]\<rparr>"

text \<open>
  Lines 152 to 183 for the victim \<open>e\<close> at index \<open>oldUsed\<close>, after the write-back.
\<close>

definition populate ::
  "'d NTFS_CACHE \<Rightarrow> 'd env \<Rightarrow> nat \<Rightarrow> NTFS_CACHE_ENTRY \<Rightarrow> sec_t \<Rightarrow> sec_t \<Rightarrow> bool \<Rightarrow>
     nat option \<times> 'd NTFS_CACHE \<times> 'd env" where
  "populate c env oldUsed e t numSectors write =
     (let e1 = rebase c e t;
          local = t - sector e1;
          cnt = ucast (count e1);
          n = clampSectors numSectors cnt local
      in case readWindow write local n cnt of
           None \<Rightarrow>
             (case accessTime env of
                (tick, env') \<Rightarrow> (Some oldUsed, setEntry c oldUsed (e1\<lparr>last_access := tick\<rparr>), env'))
         | Some (sec, secs_to_read) \<Rightarrow>
             (case dev_read (disc c) env (sector e1 + sec) secs_to_read of
                (ok, bs, env') \<Rightarrow>
                  (let e2 = e1\<lparr>cache := buf_store (cache e1)
                                          (unat (sec * ucast (bytesPerSector c))) bs\<rparr>
                   in if \<not> ok
                      then (None,
                            setEntry c oldUsed
                              (e2\<lparr>sector := CACHE_FREE, count := 0, last_access := 0, dirty := 0\<rparr>),
                            env')
                      else (case accessTime env' of
                              (tick, env'') \<Rightarrow>
                                (Some oldUsed, setEntry c oldUsed (e2\<lparr>last_access := tick\<rparr>),
                                 env'')))))"

text \<open>
  \<open>_NTFS_cache_getPage\<close>. The result is the index of the returned entry, or \<open>None\<close>
  for the null pointer, with the cache and its surroundings as the call leaves them.
\<close>

definition NTFS_cache_getPage ::
  "'d NTFS_CACHE \<Rightarrow> 'd env \<Rightarrow> sec_t \<Rightarrow> sec_t \<Rightarrow> bool \<Rightarrow> nat option \<times> 'd NTFS_CACHE \<times> 'd env" where
  "NTFS_cache_getPage c env t numSectors write =
     (case scanPages (take (unat (numberOfPages c)) (cacheEntries c)) t 0 False 0 UINT_MAX of
        Hit i \<Rightarrow>
          (case accessTime env of
             (tick, env') \<Rightarrow>
               (Some i, setEntry c i ((cacheEntries c ! i)\<lparr>last_access := tick\<rparr>), env'))
      | Miss foundFree oldUsed \<Rightarrow>
          (case evict c foundFree (cacheEntries c ! oldUsed) env of
             (None, env') \<Rightarrow> (None, c, env')
           | (Some e, env') \<Rightarrow> populate c env' oldUsed e t numSectors write))"

section \<open>Intersection lookup (\<open>_NTFS_cache_findPage\<close>)\<close>

definition intersect :: "NTFS_CACHE_ENTRY \<Rightarrow> sec_t \<Rightarrow> sec_t \<Rightarrow> bool" where
  "intersect e t cnt =
     (if t > sector e then t - sector e < ucast (count e) else sector e - t < cnt)"

fun findPage_loop ::
  "NTFS_CACHE_ENTRY list \<Rightarrow> sec_t \<Rightarrow> sec_t \<Rightarrow> nat \<Rightarrow> nat option \<Rightarrow> sec_t \<Rightarrow> nat option" where
  "findPage_loop [] t cnt i entry lowest = entry"
| "findPage_loop (e # es) t cnt i entry lowest =
     (if sector e \<noteq> CACHE_FREE \<and> intersect e t cnt \<and> sector e < lowest
      then findPage_loop es t cnt (Suc i) (Some i) (sector e)
      else findPage_loop es t cnt (Suc i) entry lowest)"

definition NTFS_cache_findPage :: "'d NTFS_CACHE \<Rightarrow> sec_t \<Rightarrow> sec_t \<Rightarrow> nat option" where
  "NTFS_cache_findPage c t cnt =
     findPage_loop (take (unat (numberOfPages c)) (cacheEntries c)) t cnt 0 None CACHE_FREE"

section \<open>Access layer\<close>

text \<open>
  A shift of a 64-bit value by 64 or more is undefined in C. The operations that shift
  return \<open>Undefined\<close> when they reach such a shift, and \<open>Returns\<close> otherwise.
\<close>

datatype 'a outcome = Returns 'a | Undefined

definition shl64 :: "64 word \<Rightarrow> sec_t \<Rightarrow> 64 word option" where
  "shl64 x k = (if k < 64 then Some (push_bit (unat k) x) else None)"

text \<open>Line 386: \<open>((1ULL << secs_to_write) - 1) << sec\<close>.\<close>

definition dirtyMask :: "sec_t \<Rightarrow> sec_t \<Rightarrow> 64 word option" where
  "dirtyMask secs_to_write sec =
     (case shl64 1 secs_to_write of None \<Rightarrow> None | Some a \<Rightarrow> shl64 (a - 1) sec)"

text \<open>
  Lines 221 to 229 and 353 to 361: the number of sectors that go straight to the device.
\<close>

definition bypassSectors :: "'d NTFS_CACHE \<Rightarrow> sec_t \<Rightarrow> sec_t \<Rightarrow> sec_t" where
  "bypassSectors c t numSectors =
     (case NTFS_cache_findPage c t numSectors of
        None \<Rightarrow> (numSectors div ucast (sectorsPerPage c)) * ucast (sectorsPerPage c)
      | Some i \<Rightarrow>
          if sector (cacheEntries c ! i) > t then sector (cacheEntries c ! i) - t else 0)"

text \<open>
  \<open>_NTFS_cache_readSectors\<close>. The caller's buffer is the byte list \<open>buf\<close> at address
  \<open>addr\<close>; \<open>dest\<close> is \<open>addr + off\<close>. The loop need not end, so the result is an option:
  \<open>None\<close> means that the call does not return.
\<close>

partial_function (option) readSectors_loop ::
  "'d NTFS_CACHE \<Rightarrow> 'd env \<Rightarrow> sec_t \<Rightarrow> sec_t \<Rightarrow> nat \<Rightarrow> nat \<Rightarrow> byte list \<Rightarrow>
     (bool \<times> byte list \<times> 'd NTFS_CACHE \<times> 'd env) option" where
  "readSectors_loop c env t numSectors addr off buf =
     (if numSectors > 0 then
        (if (addr + off) mod 32 = 0 \<and> t mod ucast (sectorsPerPage c) = 0
            \<and> bypassSectors c t numSectors > 0
         then
           (let secs_to_read = bypassSectors c t numSectors in
            case dev_read (disc c) env t secs_to_read of
              (ok, bs, env') \<Rightarrow>
                if \<not> ok then Some (False, store buf off bs, c, env')
                else readSectors_loop c env' (t + secs_to_read) (numSectors - secs_to_read) addr
                       (off + unat (secs_to_read * ucast (bytesPerSector c))) (store buf off bs))
         else
           (case NTFS_cache_getPage c env t numSectors False of
              (None, c', env') \<Rightarrow> Some (False, buf, c', env')
            | (Some i, c', env') \<Rightarrow>
                (let e = cacheEntries c' ! i;
                     sec = t - sector e;
                     secs_to_read =
                       (if ucast (count e) - sec > numSectors then numSectors
                        else ucast (count e) - sec)
                 in readSectors_loop c' env' (t + secs_to_read) (numSectors - secs_to_read) addr
                      (off + unat (secs_to_read * ucast (bytesPerSector c)))
                      (store buf off
                         (buf_fetch (cache e) (unat (sec * ucast (bytesPerSector c)))
                            (unat (secs_to_read * ucast (bytesPerSector c))))))))
      else Some (True, buf, c, env))"

definition NTFS_cache_readSectors ::
  "'d NTFS_CACHE \<Rightarrow> 'd env \<Rightarrow> sec_t \<Rightarrow> sec_t \<Rightarrow> nat \<Rightarrow> byte list \<Rightarrow>
     (bool \<times> byte list \<times> 'd NTFS_CACHE \<times> 'd env) option" where
  "NTFS_cache_readSectors c env t numSectors addr buf = readSectors_loop c env t numSectors addr 0 buf"

text \<open>
  \<open>_NTFS_cache_readPartialSector\<close>. \<open>offset + size\<close> is computed in 32 bits.
\<close>

definition NTFS_cache_readPartialSector ::
  "'d NTFS_CACHE \<Rightarrow> 'd env \<Rightarrow> byte list \<Rightarrow> sec_t \<Rightarrow> uint \<Rightarrow> size_t \<Rightarrow>
     bool \<times> byte list \<times> 'd NTFS_CACHE \<times> 'd env" where
  "NTFS_cache_readPartialSector c env buffer t offset len =
     (if offset + len > bytesPerSector c then (False, buffer, c, env)
      else case NTFS_cache_getPage c env t 1 False of
             (None, c', env') \<Rightarrow> (False, buffer, c', env')
           | (Some i, c', env') \<Rightarrow>
               (let e = cacheEntries c' ! i;
                    sec = t - sector e
                in (True,
                    store buffer 0
                      (buf_fetch (cache e)
                         (unat (sec * ucast (bytesPerSector c) + ucast offset)) (unat len)),
                    c', env')))"

text \<open>
  Modelled from the spec: the conversions between byte arrays and integers of
  \<open>bit_ops.h\<close> are not part of the sources; the values are little-endian.
\<close>

definition u8array_to_u16 :: "byte list \<Rightarrow> uint" where
  "u8array_to_u16 b = ucast (b ! 0) OR push_bit 8 (ucast (b ! 1))"

definition u8array_to_u32 :: "byte list \<Rightarrow> uint" where
  "u8array_to_u32 b =
     ucast (b ! 0) OR push_bit 8 (ucast (b ! 1)) OR push_bit 16 (ucast (b ! 2))
       OR push_bit 24 (ucast (b ! 3))"

definition u16_to_u8array :: "byte list \<Rightarrow> uint \<Rightarrow> byte list" where
  "u16_to_u8array b v = b[0 := ucast v, 1 := ucast (drop_bit 8 v)]"

definition u32_to_u8array :: "byte list \<Rightarrow> uint \<Rightarrow> byte list" where
  "u32_to_u8array b v =
     b[0 := ucast v, 1 := ucast (drop_bit 8 v), 2 := ucast (drop_bit 16 v),
       3 := ucast (drop_bit 24 v)]"

text \<open>
  \<open>_NTFS_cache_readLittleEndianValue\<close>. The partial read comes first and copies
  \<open>num_bytes\<close> bytes into the four bytes of \<open>buf\<close>; the \<open>switch\<close> on the width follows.
  A successful partial read of more than four bytes has written past \<open>buf\<close>.
\<close>

definition NTFS_cache_readLittleEndianValue ::
  "'d NTFS_CACHE \<Rightarrow> 'd env \<Rightarrow> uint \<Rightarrow> sec_t \<Rightarrow> uint \<Rightarrow> 32 word \<Rightarrow>
     (bool \<times> uint \<times> 'd NTFS_CACHE \<times> 'd env) outcome" where
  "NTFS_cache_readLittleEndianValue c env val t offset num_bytes =
     (case NTFS_cache_readPartialSector c env [0, 0, 0, 0] t offset num_bytes of
        (ok, buf, c', env') \<Rightarrow>
          if \<not> ok then Returns (False, val, c', env')
          else if num_bytes > 4 then Undefined
          else if num_bytes = 1 then Returns (True, ucast (buf ! 0), c', env')
          else if num_bytes = 2 then Returns (True, u8array_to_u16 buf, c', env')
          else if num_bytes = 4 then Returns (True, u8array_to_u32 buf, c', env')
          else Returns (False, val, c', env'))"

text \<open>\<open>_NTFS_cache_writePartialSector\<close>; line 306 shifts \<open>1ULL\<close> by the sector offset.\<close>

definition NTFS_cache_writePartialSector ::
  "'d NTFS_CACHE \<Rightarrow> 'd env \<Rightarrow> byte list \<Rightarrow> sec_t \<Rightarrow> uint \<Rightarrow> size_t \<Rightarrow>
     (bool \<times> 'd NTFS_CACHE \<times> 'd env) outcome" where
  "NTFS_cache_writePartialSector c env buffer t offset len =
     (if offset + len > bytesPerSector c then Returns (False, c, env)
      else case NTFS_cache_getPage c env t 1 False of
             (None, c', env') \<Rightarrow> Returns (False, c', env')
           | (Some i, c', env') \<Rightarrow>
               (let e = cacheEntries c' ! i;
                    sec = t - sector e
                in case shl64 1 sec of
                     None \<Rightarrow> Undefined
                   | Some m \<Rightarrow>
                       Returns (True,
                         setEntry c' i
                           (e\<lparr>cache := buf_store (cache e)
                                  (unat (sec * ucast (bytesPerSector c) + ucast offset))
                                  (fetch buffer 0 (unat len)),
                              dirty := dirty e OR m\<rparr>),
                         env')))"

text \<open>\<open>_NTFS_cache_writeLittleEndianValue\<close>: the \<open>switch\<close> on the width comes first.\<close>

definition NTFS_cache_writeLittleEndianValue ::
  "'d NTFS_CACHE \<Rightarrow> 'd env \<Rightarrow> uint \<Rightarrow> sec_t \<Rightarrow> uint \<Rightarrow> 32 word \<Rightarrow>
     (bool \<times> 'd NTFS_CACHE \<times> 'd env) outcome" where
  "NTFS_cache_writeLittleEndianValue c env val t offset len =
     (if len = 1 then
        NTFS_cache_writePartialSector c env ([0, 0, 0, 0][0 := ucast val]) t offset len
      else if len = 2 then
        NTFS_cache_writePartialSector c env (u16_to_u8array [0, 0, 0, 0] val) t offset len
      else if len = 4 then
        NTFS_cache_writePartialSector c env (u32_to_u8array [0, 0, 0, 0] val) t offset len
      else Returns (False, c, env))"

text \<open>\<open>_NTFS_cache_eraseWritePartialSector\<close>: the sector is zeroed before the copy.\<close>

definition NTFS_cache_eraseWritePartialSector ::
  "'d NTFS_CACHE \<Rightarrow> 'd env \<Rightarrow> byte list \<Rightarrow> sec_t \<Rightarrow> uint \<Rightarrow> size_t \<Rightarrow>
     (bool \<times> 'd NTFS_CACHE \<times> 'd env) outcome" where
  "NTFS_cache_eraseWritePartialSector c env buffer t offset len =
     (if offset + len > bytesPerSector c then Returns (False, c, env)
      else case NTFS_cache_getPage c env t 1 True of
             (None, c', env') \<Rightarrow> Returns (False, c', env')
           | (Some i, c', env') \<Rightarrow>
               (let e = cacheEntries c' ! i;
                    sec = t - sector e
                in case shl64 1 sec of
                     None \<Rightarrow> Undefined
                   | Some m \<Rightarrow>
                       Returns (True,
                         setEntry c' i
                           (e\<lparr>cache := buf_store
                                  (buf_store (cache e) (unat (sec * ucast (bytesPerSector c)))
                                     (replicate (unat (bytesPerSector c)) 0))
                                  (unat (sec * ucast (bytesPerSector c) + ucast offset))
                                  (fetch buffer 0 (unat len)),
                              dirty := dirty e OR m\<rparr>),
                         env')))"

text \<open>
  \<open>_NTFS_cache_writeSectors\<close>. The caller's data is the byte list \<open>buf\<close> at address
  \<open>addr\<close>; \<open>src\<close> is \<open>addr + off\<close>.
\<close>

partial_function (option) writeSectors_loop ::
  "'d NTFS_CACHE \<Rightarrow> 'd env \<Rightarrow> sec_t \<Rightarrow> sec_t \<Rightarrow> nat \<Rightarrow> nat \<Rightarrow> byte list \<Rightarrow>
     (bool \<times> 'd NTFS_CACHE \<times> 'd env) outcome option" where
  "writeSectors_loop c env t numSectors addr off buf =
     (if numSectors > 0 then
        (if (addr + off) mod 32 = 0 \<and> t mod ucast (sectorsPerPage c) = 0
            \<and> bypassSectors c t numSectors > 0
         then
           (let secs_to_write = bypassSectors c t numSectors in
            case dev_write (disc c) env t secs_to_write
                   (fetch buf off (unat (secs_to_write * ucast (bytesPerSector c)))) of
              (ok, env') \<Rightarrow>
                if \<not> ok then Some (Returns (False, c, env'))
                else writeSectors_loop c env' (t + secs_to_write) (numSectors - secs_to_write) addr
                       (off + unat (secs_to_write * ucast (bytesPerSector c))) buf)
         else
           (case NTFS_cache_getPage c env t numSectors True of
              (None, c', env') \<Rightarrow> Some (Returns (False, c', env'))
            | (Some i, c', env') \<Rightarrow>
                (let e = cacheEntries c' ! i;
                     sec = t - sector e;
                     secs_to_write =
                       (if ucast (count e) - sec > numSectors then numSectors
                        else ucast (count e) - sec)
                 in case dirtyMask secs_to_write sec of
                      None \<Rightarrow> Some Undefined
                    | Some m \<Rightarrow>
                        writeSectors_loop
                          (setEntry c' i
                             (e\<lparr>cache := buf_store (cache e)
                                    (unat (sec * ucast (bytesPerSector c)))
                                    (fetch buf off
                                       (unat (secs_to_write * ucast (bytesPerSector c)))),
                                dirty := dirty e OR m\<rparr>))
                          env' (t + secs_to_write) (numSectors - secs_to_write) addr
                          (off + unat (secs_to_write * ucast (bytesPerSector c))) buf)))
      else Some (Returns (True, c, env)))"

definition NTFS_cache_writeSectors ::
  "'d NTFS_CACHE \<Rightarrow> 'd env \<Rightarrow> sec_t \<Rightarrow> sec_t \<Rightarrow> nat \<Rightarrow> byte list \<Rightarrow>
     (bool \<times> 'd NTFS_CACHE \<times> 'd env) outcome option" where
  "NTFS_cache_writeSectors c env t numSectors addr buf =
     writeSectors_loop c env t numSectors addr 0 buf"

text \<open>\<open>_NTFS_cache_flush\<close>: the loop of lines 401 to 412 over the remaining entries.\<close>

fun flush_loop ::
  "'d NTFS_CACHE \<Rightarrow> NTFS_CACHE_ENTRY list \<Rightarrow> 'd env \<Rightarrow> bool \<times> NTFS_CACHE_ENTRY list \<times> 'd env" where
  "flush_loop c [] env = (True, [], env)"
| "flush_loop c (e # es) env =
     (if dirty e \<noteq> 0 then
        (case writeback c e env of
           (ok, env') \<Rightarrow>
             if \<not> ok then (False, e # es, env')
             else (case flush_loop c es env' of
                     (r, es', env'') \<Rightarrow> (r, e\<lparr>dirty := 0\<rparr> # es', env'')))
      else (case flush_loop c es env of (r, es', env'') \<Rightarrow> (r, e # es', env'')))"

definition NTFS_cache_flush :: "'d NTFS_CACHE \<Rightarrow> 'd env \<Rightarrow> bool \<times> 'd NTFS_CACHE \<times> 'd env" where
  "NTFS_cache_flush c env =
     (case flush_loop c (take (unat (numberOfPages c)) (cacheEntries c)) env of
        (r, es', env') \<Rightarrow>
          (r, c\<lparr>cacheEntries := es' @ drop (unat (numberOfPages c)) (cacheEntries c)\<rparr>, env'))"

text \<open>\<open>_NTFS_cache_invalidate\<close>: the result of the flush is not looked at.\<close>

definition NTFS_cache_invalidate :: "'d NTFS_CACHE \<Rightarrow> 'd env \<Rightarrow> 'd NTFS_CACHE \<times> 'd env" where
  "NTFS_cache_invalidate c env =
     (case NTFS_cache_flush c env of
        (r, c', env') \<Rightarrow>
          (c'\<lparr>cacheEntries :=
                map (\<lambda>e. e\<lparr>sector := CACHE_FREE, count := 0, last_access := 0, dirty := 0\<rparr>)
                  (take (unat (numberOfPages c')) (cacheEntries c'))
                @ drop (unat (numberOfPages c')) (cacheEntries c')\<rparr>,
           env'))"

section \<open>Lifecycle (\<open>_NTFS_cache_constructor\<close>)\<close>

text \<open>
  The allocator of \<open>mem_allocate.h\<close> is not part of the sources; its answers are
  parameters: whether \<open>ntfs_alloc\<close> returns memory for the cache object and for the
  table of entries, and the buffer (or null pointer) \<open>ntfs_align\<close> returns for the
  slot of a given index and a given size in bytes.
\<close>

record allocator =
  alloc_cache :: bool
  alloc_entries :: bool
  ntfs_align :: "nat \<Rightarrow> nat \<Rightarrow> byte list option"

definition NTFS_cache_constructor ::
  "allocator \<Rightarrow> uint \<Rightarrow> uint \<Rightarrow> 'd DISC_INTERFACE \<Rightarrow> sec_t \<Rightarrow> uint \<Rightarrow> 'd NTFS_CACHE option" where
  "NTFS_cache_constructor al numberOfPages0 sectorsPerPage0 discInterface endOfPartition0
       bytesPerSector0 =
     (if numberOfPages0 = 0 \<or> sectorsPerPage0 = 0 then None
      else
        (let nop = (if numberOfPages0 < 4 then 4 else numberOfPages0);
             spp = (if sectorsPerPage0 < 32 then 32
                    else if sectorsPerPage0 > 64 then 64 else sectorsPerPage0)
         in if \<not> alloc_cache al then None
            else if \<not> alloc_entries al then None
            else Some \<lparr>disc = discInterface, endOfPartition = endOfPartition0,
                       numberOfPages = nop, sectorsPerPage = spp,
                       bytesPerSector = bytesPerSector0,
                       cacheEntries =
                         map (\<lambda>i. \<lparr>sector = CACHE_FREE, count = 0, last_access = 0, dirty = 0,
                                    cache = ntfs_align al i (unat (spp * bytesPerSector0))\<rparr>)
                           [0..<unat nop]\<rparr>))"


section \<open>Fixtures\<close>

text \<open>
  A block device for concrete runs: its state is the list of the answers it will give to
  the coming calls (success for every call once the list is used up); a read fills the
  buffer with zero bytes, for sectors of 512 bytes.
\<close>

definition scripted_disc :: "bool list DISC_INTERFACE" where
  "scripted_disc =
     \<lparr>readSectors = (\<lambda>d s n. case d of [] \<Rightarrow> (True, replicate (unat n * 512) 0, [])
                               | ok # d' \<Rightarrow> (ok, replicate (unat n * 512) 0, d')),
      writeSectors = (\<lambda>d s n bs. case d of [] \<Rightarrow> (True, []) | ok # d' \<Rightarrow> (ok, d'))\<rparr>"

definition good_alloc :: allocator where
  "good_alloc =
     \<lparr>alloc_cache = True, alloc_entries = True, ntfs_align = (\<lambda>i n. Some (replicate n 0))\<rparr>"

definition env0 :: "bool list env" where
  "env0 = \<lparr>accessCounter = 0, device = [], io_log = []\<rparr>"

definition free_entry :: NTFS_CACHE_ENTRY where
  "free_entry =
     \<lparr>sector = CACHE_FREE, count = 0, last_access = 0, dirty = 0,
      cache = Some (replicate 16384 0)\<rparr>"

text \<open>The cache of the scenarios of the specification: four pages of 32 sectors of 512 bytes,
  on a partition of 4096 sectors.\<close>

definition cache0 :: "bool list NTFS_CACHE" where
  "cache0 =
     \<lparr>disc = scripted_disc, endOfPartition = 4096, numberOfPages = 4, sectorsPerPage = 32,
      bytesPerSector = 512, cacheEntries = [free_entry, free_entry, free_entry, free_entry]\<rparr>"

text \<open>Further cache states for concrete runs: a full cache whose slots 0, 1 and 2 are dirty
  (slot 0, the least recently used, in its sectors 2 and 29).\<close>

definition page_entry :: "sec_t \<Rightarrow> uint \<Rightarrow> 64 word \<Rightarrow> NTFS_CACHE_ENTRY" where
  "page_entry s a d =
     \<lparr>sector = s, count = 32, last_access = a, dirty = d, cache = Some (replicate 16384 0)\<rparr>"

definition cache1 :: "bool list NTFS_CACHE" where
  "cache1 =
     \<lparr>disc = scripted_disc, endOfPartition = 4096, numberOfPages = 4, sectorsPerPage = 32,
      bytesPerSector = 512,
      cacheEntries = [page_entry 0 1 0x20000004, page_entry 32 2 1, page_entry 64 3 0xFF,
                      page_entry 96 4 0]\<rparr>"

definition env1 :: "bool list \<Rightarrow> bool list env" where
  "env1 script = \<lparr>accessCounter = 4, device = script, io_log = []\<rparr>"

text \<open>Two more cache states: one with free slots behind two used ones, one that is full
  and whose slots 1 and 2 share the smallest access time.\<close>

definition cache2 :: "bool list NTFS_CACHE" where
  "cache2 =
     \<lparr>disc = scripted_disc, endOfPartition = 4096, numberOfPages = 4, sectorsPerPage = 32,
      bytesPerSector = 512,
      cacheEntries = [page_entry 0 5 0, page_entry 32 2 0, free_entry, free_entry]\<rparr>"

definition cache3 :: "bool list NTFS_CACHE" where
  "cache3 =
     \<lparr>disc = scripted_disc, endOfPartition = 4096, numberOfPages = 4, sectorsPerPage = 32,
      bytesPerSector = 512,
      cacheEntries = [page_entry 0 7 0, page_entry 32 3 0, page_entry 64 3 0,
                      page_entry 96 9 0]\<rparr>"

text \<open>An allocator whose \<open>ntfs_align\<close> returns the null pointer.\<close>

definition no_buffers :: allocator where
  "no_buffers = \<lparr>alloc_cache = True, alloc_entries = True, ntfs_align = (\<lambda>i n. None)\<rparr>"

text \<open>A cache with pages of 64 sectors, as the constructor builds it for a requested page
  size of 64 or more.\<close>

definition free_entry64 :: NTFS_CACHE_ENTRY where
  "free_entry64 =
     \<lparr>sector = CACHE_FREE, count = 0, last_access = 0, dirty = 0,
      cache = Some (replicate 32768 0)\<rparr>"

definition cache64 :: "bool list NTFS_CACHE" where
  "cache64 =
     \<lparr>disc = scripted_disc, endOfPartition = 4096, numberOfPages = 4, sectorsPerPage = 64,
      bytesPerSector = 512,
      cacheEntries = [free_entry64, free_entry64, free_entry64, free_entry64]\<rparr>"


text \<open>A fresh cache on a partition of \<open>2 ^ 32 + 5\<close> sectors.\<close>

definition cache_big :: "bool list NTFS_CACHE" where
  "cache_big =
     \<lparr>disc = scripted_disc, endOfPartition = 0x100000005, numberOfPages = 4, sectorsPerPage = 32,
      bytesPerSector = 512, cacheEntries = [free_entry, free_entry, free_entry, free_entry]\<rparr>"

text \<open>
  A fresh cache on a partition of 64 sectors, which ends where the third page begins, and
  the state a partial read of sector 64 leaves it in: slot 0 is in use for the page of
  sector 64 and holds no sector.
\<close>

definition cache_part64 :: "bool list NTFS_CACHE" where
  "cache_part64 =
     \<lparr>disc = scripted_disc, endOfPartition = 64, numberOfPages = 4, sectorsPerPage = 32,
      bytesPerSector = 512, cacheEntries = [free_entry, free_entry, free_entry, free_entry]\<rparr>"

definition empty_slot :: NTFS_CACHE_ENTRY where
  "empty_slot =
     \<lparr>sector = 64, count = 0, last_access = 1, dirty = 0, cache = Some (replicate 16384 0)\<rparr>"

definition cache_empty_slot :: "bool list NTFS_CACHE" where
  "cache_empty_slot =
     cache_part64\<lparr>cacheEntries := [empty_slot, free_entry, free_entry, free_entry]\<rparr>"

definition env_empty_slot :: "bool list env" where
  "env_empty_slot = \<lparr>accessCounter = 1, device = [], io_log = [DevRead 64 0 True]\<rparr>"

text \<open>The same on a partition of \<open>2 ^ 32 + 64\<close> sectors, where sector 64 is in the
  partition.\<close>

definition cache_big64 :: "bool list NTFS_CACHE" where
  "cache_big64 =
     \<lparr>disc = scripted_disc, endOfPartition = 0x100000040, numberOfPages = 4,
      sectorsPerPage = 32, bytesPerSector = 512,
      cacheEntries = [free_entry, free_entry, free_entry, free_entry]\<rparr>"

definition cache_big64_empty_slot :: "bool list NTFS_CACHE" where
  "cache_big64_empty_slot =
     cache_big64\<lparr>cacheEntries := [empty_slot, free_entry, free_entry, free_entry]\<rparr>"

section \<open>Vocabulary of the statements\<close>

text \<open>The device call that writes back the dirty span of an entry, with its result.\<close>

definition wb_call :: "NTFS_CACHE_ENTRY \<Rightarrow> bool \<Rightarrow> io_call" where
  "wb_call e ok =
     DevWrite (sector e + (ffsll (dirty e) - 1)) (flsll (dirty e) - (ffsll (dirty e) - 1)) ok"

definition is_dirty :: "NTFS_CACHE_ENTRY \<Rightarrow> bool" where
  "is_dirty e \<longleftrightarrow> dirty e \<noteq> 0"

definition clean :: "NTFS_CACHE_ENTRY \<Rightarrow> NTFS_CACHE_ENTRY" where
  "clean e = e\<lparr>dirty := 0\<rparr>"


text \<open>
  What the scan of \<open>_NTFS_cache_getPage\<close> knows after the entries \<open>pre\<close>, when none of
  them held the sector: with \<open>foundFree\<close>, \<open>oldUsed\<close> is the first free entry; without,
  no entry is free, \<open>oldAccess\<close> is the smallest access time seen and \<open>oldUsed\<close> the
  first entry that has it.
\<close>

definition scan_inv :: "NTFS_CACHE_ENTRY list \<Rightarrow> bool \<Rightarrow> nat \<Rightarrow> uint \<Rightarrow> bool" where
  "scan_inv pre ff old oa \<longleftrightarrow>
     (ff \<longrightarrow> old < length pre \<and> sector (pre ! old) = CACHE_FREE \<and>
        (\<forall>j<old. sector (pre ! j) \<noteq> CACHE_FREE)) \<and>
     (\<not> ff \<longrightarrow> (\<forall>e\<in>set pre. sector e \<noteq> CACHE_FREE) \<and>
        (\<forall>j<length pre. oa \<le> last_access (pre ! j)) \<and>
        (\<forall>j<old. oa < last_access (pre ! j)) \<and>
        (pre \<noteq> [] \<longrightarrow> old < length pre \<and> oa = last_access (pre ! old)) \<and>
        (pre = [] \<longrightarrow> old = 0 \<and> oa = UINT_MAX))"

text \<open>
  A call of the constructor in surroundings \<open>env\<close>. The body of the constructor does not
  mention \<open>accessCounter\<close> or the device, so the surroundings are returned as they are.
\<close>

definition construct ::
  "allocator \<Rightarrow> 'd env \<Rightarrow> uint \<Rightarrow> uint \<Rightarrow> 'd DISC_INTERFACE \<Rightarrow> sec_t \<Rightarrow> uint \<Rightarrow>
     'd NTFS_CACHE option \<times> 'd env" where
  "construct al env numberOfPages0 sectorsPerPage0 discInterface endOfPartition0 bytesPerSector0 =
     (NTFS_cache_constructor al numberOfPages0 sectorsPerPage0 discInterface endOfPartition0
        bytesPerSector0, env)"

text \<open>The sectors an entry covers and the \<open>len\<close> sectors from \<open>t\<close> have a sector in
  common (as sets of natural numbers).\<close>

definition ranges_meet :: "NTFS_CACHE_ENTRY \<Rightarrow> sec_t \<Rightarrow> nat \<Rightarrow> bool" where
  "ranges_meet e t len \<longleftrightarrow>
     {unat (sector e) ..< unat (sector e) + unat (count e)} \<inter> {unat t ..< unat t + len} \<noteq> {}"

text \<open>
  A state in which the transfer loops make no progress at sector 64: the page of sector 64
  holds no sector (the 32-bit count of line 154 is 0), every slot is free or in use for
  that page, one slot is in use, none is dirty, and the device answers every call with
  success.
\<close>

definition stalled :: "bool list NTFS_CACHE \<Rightarrow> bool list env \<Rightarrow> bool" where
  "stalled c env \<longleftrightarrow>
     disc c = scripted_disc \<and> device env = [] \<and>
     (ucast (endOfPartition c - 64) :: uint) = 0 \<and>
     numberOfPages c = 4 \<and> sectorsPerPage c = 32 \<and> length (cacheEntries c) = 4 \<and>
     (\<forall>e\<in>set (cacheEntries c).
        count e = 0 \<and> dirty e = 0 \<and> (sector e = CACHE_FREE \<or> sector e = 64)) \<and>
     (\<exists>e\<in>set (cacheEntries c). sector e = 64)"

section \<open>Sequences of operations\<close>

text \<open>
  The operations of the access layer with their arguments. A sequence of them runs from a
  cache and its surroundings; the run has no result when an operation does not return or
  reaches an undefined shift.
\<close>

datatype op =
    OpReadSectors sec_t sec_t nat "byte list"
  | OpWriteSectors sec_t sec_t nat "byte list"
  | OpReadPartial "byte list" sec_t uint size_t
  | OpWritePartial "byte list" sec_t uint size_t
  | OpEraseWritePartial "byte list" sec_t uint size_t
  | OpReadLE uint sec_t uint "32 word"
  | OpWriteLE uint sec_t uint "32 word"
  | OpFlush
  | OpInvalidate

fun run_op :: "'d NTFS_CACHE \<Rightarrow> 'd env \<Rightarrow> op \<Rightarrow> ('d NTFS_CACHE \<times> 'd env) option" where
  "run_op c env (OpReadSectors t n addr buf) =
     (case NTFS_cache_readSectors c env t n addr buf of
        None \<Rightarrow> None
      | Some (r, buf', c', env') \<Rightarrow> Some (c', env'))"
| "run_op c env (OpWriteSectors t n addr buf) =
     (case NTFS_cache_writeSectors c env t n addr buf of
        Some (Returns (r, c', env')) \<Rightarrow> Some (c', env')
      | _ \<Rightarrow> None)"
| "run_op c env (OpReadPartial buffer t offset len) =
     (case NTFS_cache_readPartialSector c env buffer t offset len of
        (r, buf', c', env') \<Rightarrow> Some (c', env'))"
| "run_op c env (OpWritePartial buffer t offset len) =
     (case NTFS_cache_writePartialSector c env buffer t offset len of
        Returns (r, c', env') \<Rightarrow> Some (c', env')
      | Undefined \<Rightarrow> None)"
| "run_op c env (OpEraseWritePartial buffer t offset len) =
     (case NTFS_cache_eraseWritePartialSector c env buffer t offset len of
        Returns (r, c', env') \<Rightarrow> Some (c', env')
      | Undefined \<Rightarrow> None)"
| "run_op c env (OpReadLE val t offset w) =
     (case NTFS_cache_readLittleEndianValue c env val t offset w of
        Returns (r, v, c', env') \<Rightarrow> Some (c', env')
      | Undefined \<Rightarrow> None)"
| "run_op c env (OpWriteLE val t offset w) =
     (case NTFS_cache_writeLittleEndianValue c env val t offset w of
        Returns (r, c', env') \<Rightarrow> Some (c', env')
      | Undefined \<Rightarrow> None)"
| "run_op c env OpFlush = (case NTFS_cache_flush c env of (r, c', env') \<Rightarrow> Some (c', env'))"
| "run_op c env OpInvalidate = Some (NTFS_cache_invalidate c env)"

fun run_ops :: "'d NTFS_CACHE \<Rightarrow> 'd env \<Rightarrow> op list \<Rightarrow> ('d NTFS_CACHE \<times> 'd env) option" where
  "run_ops c env [] = Some (c, env)"
| "run_ops c env (x # xs) =
     (case run_op c env x of None \<Rightarrow> None | Some (c', env') \<Rightarrow> run_ops c' env' xs)"


text \<open>
  The sectors a slot covers, and the property of claim C8: every slot in use starts at a
  multiple of the page size, and two different slots in use cover no sector in common.
\<close>

definition slot_range :: "NTFS_CACHE_ENTRY \<Rightarrow> nat set" where
  "slot_range e = {unat (sector e) ..< unat (sector e) + unat (count e)}"

definition slots_aligned_disjoint :: "'d NTFS_CACHE \<Rightarrow> bool" where
  "slots_aligned_disjoint c \<longleftrightarrow>
     (\<forall>i<length (cacheEntries c). sector (cacheEntries c ! i) \<noteq> CACHE_FREE \<longrightarrow>
        unat (sector (cacheEntries c ! i)) mod unat (sectorsPerPage c) = 0 \<and>
        (\<forall>j<length (cacheEntries c). j \<noteq> i \<and> sector (cacheEntries c ! j) \<noteq> CACHE_FREE \<longrightarrow>
           slot_range (cacheEntries c ! i) \<inter> slot_range (cacheEntries c ! j) = {}))"

text \<open>
  The invariant behind it: a slot in use starts at a multiple of the page size below the
  end of the partition and holds the sectors of its page that lie in the partition; no
  two slots in use have the same base sector; the table has one entry per page.
\<close>

definition slot_ok :: "'d NTFS_CACHE \<Rightarrow> NTFS_CACHE_ENTRY \<Rightarrow> bool" where
  "slot_ok c e \<longleftrightarrow>
     (sector e \<noteq> CACHE_FREE \<longrightarrow>
        unat (sector e) mod unat (sectorsPerPage c) = 0 \<and>
        unat (sector e) < unat (endOfPartition c) \<and>
        unat (count e) = min (unat (sectorsPerPage c))
                           (unat (endOfPartition c) - unat (sector e)))"

definition cache_inv :: "'d NTFS_CACHE \<Rightarrow> bool" where
  "cache_inv c \<longleftrightarrow>
     sectorsPerPage c \<noteq> 0 \<and> unat (endOfPartition c) < 2 ^ 32 \<and>
     length (cacheEntries c) = unat (numberOfPages c) \<and> cacheEntries c \<noteq> [] \<and>
     (\<forall>e\<in>set (cacheEntries c). slot_ok c e) \<and>
     (\<forall>i<length (cacheEntries c). \<forall>j<length (cacheEntries c).
        i \<noteq> j \<and> sector (cacheEntries c ! i) \<noteq> CACHE_FREE \<longrightarrow>
        sector (cacheEntries c ! j) \<noteq> sector (cacheEntries c ! i))"

section \<open>Unfolding the page lookup\<close>

lemmas getPage_eval =
  NTFS_cache_getPage_def covers_def CACHE_FREE_def UINT_MAX_def evict_def populate_def
  rebase_def clampSectors_def readWindow_def dev_read_def dev_write_def accessTime_def
  setEntry_def writeback_def Let_def

lemmas fixture_eval =
  cache0_def cache1_def cache2_def cache3_def env0_def env1_def free_entry_def page_entry_def scripted_disc_def
  ffsll_def flsll_def upt_rec fetch_def buf_fetch_def

section \<open>Transfers of no sectors\<close>

text \<open>
  Claim C10. A call of \<open>_NTFS_cache_readSectors\<close> or \<open>_NTFS_cache_writeSectors\<close> with
  \<open>numSectors = 0\<close> returns true: the cache, the access counter, the device and the list of
  device calls are as before the call, and so is the caller's buffer.
\<close>

theorem zero_sectors_no_effect:
  "NTFS_cache_readSectors c env t 0 addr buf = Some (True, buf, c, env) \<and>
   NTFS_cache_writeSectors c env t 0 addr buf = Some (Returns (True, c, env))"
proof
  show "NTFS_cache_readSectors c env t 0 addr buf = Some (True, buf, c, env)"
    unfolding NTFS_cache_readSectors_def by (subst readSectors_loop.simps) simp
  show "NTFS_cache_writeSectors c env t 0 addr buf = Some (Returns (True, c, env))"
    unfolding NTFS_cache_writeSectors_def by (subst writeSectors_loop.simps) simp
qed

section \<open>Violated preconditions\<close>

text \<open>
  Claim C6, as stated, fails for \<open>_NTFS_cache_readLittleEndianValue\<close>: the width is
  looked at only after the partial read. On the fresh cache a read of width 3 at sector 0
  returns false, and by then the device has been read, slot 0 holds the page of sector 0
  and the access counter is 1.
\<close>

theorem read_le_bad_width_counterexample:
  "NTFS_cache_readLittleEndianValue cache0 env0 0 0 0 3 =
     Returns (False, 0,
       cache0\<lparr>cacheEntries :=
         [\<lparr>sector = 0, count = 32, last_access = 1, dirty = 0,
           cache = buf_store (Some (replicate 16384 0)) 0 (replicate 16384 0)\<rparr>,
          free_entry, free_entry, free_entry]\<rparr>,
       \<lparr>accessCounter = 1, device = [], io_log = [DevRead 0 32 True]\<rparr>) \<and>
   NTFS_cache_readLittleEndianValue cache0 env0 0 0 0 3 \<noteq> Returns (False, 0, cache0, env0)"
  by (simp add: cache0_def env0_def free_entry_def scripted_disc_def
      NTFS_cache_readLittleEndianValue_def NTFS_cache_readPartialSector_def getPage_eval)

text \<open>
  Two more ways in which a call with a violated precondition has an effect are left out of
  the amended claim. The guard of the partial operations adds \<open>offset\<close> and \<open>size\<close> in 32
  bits: for the offset \<open>2 ^ 32 - 1\<close> and the size 2 the sum is 1, the guard lets the call
  pass, and the call returns true after a device read (\<open>cache2.h\<close> has the precondition
  \<open>offset + size <= BYTES_PER_READ\<close>). And \<open>_NTFS_cache_readLittleEndianValue\<close> with a
  width above 4, when the guard of its partial read lets the call pass, copies more than
  the four bytes of its local buffer.
\<close>

lemma wrapped_guard_passes:
  "unat (bytesPerSector cache0) < unat (0xFFFFFFFF :: uint) + unat (2 :: size_t) \<and>
   NTFS_cache_readPartialSector cache0 env0 [] 0 0xFFFFFFFF 2 =
     (True, [],
      cache0\<lparr>cacheEntries :=
         [\<lparr>sector = 0, count = 32, last_access = 1, dirty = 0,
           cache = buf_store (Some (replicate 16384 0)) 0 (replicate 16384 0)\<rparr>,
          free_entry, free_entry, free_entry]\<rparr>,
      \<lparr>accessCounter = 1, device = [], io_log = [DevRead 0 32 True]\<rparr>)"
  by (simp add: cache0_def env0_def free_entry_def scripted_disc_def
      NTFS_cache_readPartialSector_def getPage_eval store_def buf_fetch_def buf_store_def
      fetch_def)

lemma read_le_wide_width_overrun:
  "NTFS_cache_readLittleEndianValue cache0 env0 0 0 0 5 = Undefined"
  by (simp add: cache0_def env0_def free_entry_def scripted_disc_def
      NTFS_cache_readLittleEndianValue_def NTFS_cache_readPartialSector_def getPage_eval)

text \<open>
  Claim C6, amended. When \<open>offset + size\<close> exceeds the sector size and is below \<open>2 ^ 32\<close>,
  the three partial operations return false and leave the caller's buffer, the cache, the
  access counter, the device and the list of device calls as they were; so does
  \<open>_NTFS_cache_writeLittleEndianValue\<close> for a width other than 1, 2 and 4. For the widths
  0 and 3 \<open>_NTFS_cache_readLittleEndianValue\<close> returns false and leaves the value
  untouched, and the cache and its surroundings are those that its partial read of so
  many bytes leaves.
\<close>

theorem precondition_violation_no_effect:
  "(unat (bytesPerSector c) < unat offset + unat len \<and> unat offset + unat len < 2 ^ 32 \<longrightarrow>
      NTFS_cache_readPartialSector c env buffer t offset len = (False, buffer, c, env) \<and>
      NTFS_cache_writePartialSector c env buffer t offset len = Returns (False, c, env) \<and>
      NTFS_cache_eraseWritePartialSector c env buffer t offset len = Returns (False, c, env)) \<and>
   (w \<noteq> 1 \<and> w \<noteq> 2 \<and> w \<noteq> 4 \<longrightarrow>
      NTFS_cache_writeLittleEndianValue c env val t offset' w = Returns (False, c, env)) \<and>
   (w = 0 \<or> w = 3 \<longrightarrow>
      (case NTFS_cache_readPartialSector c env [0, 0, 0, 0] t offset' w of
         (ok, buf, c', env') \<Rightarrow>
           NTFS_cache_readLittleEndianValue c env val t offset' w =
             Returns (False, val, c', env')))"
proof -
  have g: "offset + len > bytesPerSector c"
    if "unat (bytesPerSector c) < unat offset + unat len" "unat offset + unat len < 2 ^ 32"
  proof -
    from that(2) have "unat (offset + len) = unat offset + unat len"
      by (simp add: unat_add_lem [where 'a = 32, simplified])
    with that(1) show ?thesis by (simp add: word_less_nat_alt)
  qed
  have A: "unat (bytesPerSector c) < unat offset + unat len \<and> unat offset + unat len < 2 ^ 32 \<longrightarrow>
      NTFS_cache_readPartialSector c env buffer t offset len = (False, buffer, c, env) \<and>
      NTFS_cache_writePartialSector c env buffer t offset len = Returns (False, c, env) \<and>
      NTFS_cache_eraseWritePartialSector c env buffer t offset len = Returns (False, c, env)"
    using g by (simp add: NTFS_cache_readPartialSector_def NTFS_cache_writePartialSector_def
        NTFS_cache_eraseWritePartialSector_def)
  have B: "w \<noteq> 1 \<and> w \<noteq> 2 \<and> w \<noteq> 4 \<longrightarrow>
      NTFS_cache_writeLittleEndianValue c env val t offset' w = Returns (False, c, env)"
    by (simp add: NTFS_cache_writeLittleEndianValue_def)
  have C: "w = 0 \<or> w = 3 \<longrightarrow>
      (case NTFS_cache_readPartialSector c env [0, 0, 0, 0] t offset' w of
         (ok, buf, c', env') \<Rightarrow>
           NTFS_cache_readLittleEndianValue c env val t offset' w =
             Returns (False, val, c', env'))"
    by (auto simp: NTFS_cache_readLittleEndianValue_def split: prod.splits)
  from A B C show ?thesis by (rule conjI [OF _ conjI])
qed

theorem precondition_violation_no_effect_witness:
  "unat (bytesPerSector cache0) < unat (512 :: uint) + unat (1 :: size_t) \<and>
   unat (512 :: uint) + unat (1 :: size_t) < 2 ^ 32 \<and>
   NTFS_cache_readPartialSector cache0 env0 [] 7 512 1 = (False, [], cache0, env0) \<and>
   NTFS_cache_writePartialSector cache0 env0 [] 7 512 1 = Returns (False, cache0, env0) \<and>
   NTFS_cache_eraseWritePartialSector cache0 env0 [] 7 512 1 = Returns (False, cache0, env0) \<and>
   NTFS_cache_writeLittleEndianValue cache0 env0 9 7 0 3 = Returns (False, cache0, env0) \<and>
   NTFS_cache_readLittleEndianValue cache0 env0 9 7 0 3 =
     Returns (False, 9,
       cache0\<lparr>cacheEntries :=
         [\<lparr>sector = 0, count = 32, last_access = 1, dirty = 0,
           cache = buf_store (Some (replicate 16384 0)) 0 (replicate 16384 0)\<rparr>,
          free_entry, free_entry, free_entry]\<rparr>,
       \<lparr>accessCounter = 1, device = [], io_log = [DevRead 0 32 True]\<rparr>)"
  using precondition_violation_no_effect
    [where offset = 512 and len = 1 and c = cache0 and w = 3 and env = env0 and buffer = "[]"
       and t = 7 and val = 9 and offset' = 0]
  by (simp add: cache0_def env0_def free_entry_def scripted_disc_def
      NTFS_cache_readPartialSector_def getPage_eval)

section \<open>Failure of a write-back\<close>

lemma writeback_log:
  "writeback c e env = (ok, env') \<Longrightarrow>
     io_log env' = io_log env @ [wb_call e ok] \<and> accessCounter env' = accessCounter env"
  by (auto simp: writeback_def dev_write_def wb_call_def Let_def split: prod.splits)

lemma clean_id: "\<not> is_dirty e \<Longrightarrow> clean e = e"
  by (simp add: clean_def is_dirty_def)

lemma getPage_failed_write:
  assumes "NTFS_cache_getPage c env t numSectors write = (r, c', env')"
    and "io_log env' = io_log env @ evs"
    and "DevWrite s n False \<in> set evs"
  shows "r = None \<and> c' = c \<and> accessCounter env' = accessCounter env \<and>
         evs = [DevWrite s n False] \<and>
         (\<exists>v. scanPages (take (unat (numberOfPages c)) (cacheEntries c)) t 0 False 0 UINT_MAX
                 = Miss False v \<and>
              is_dirty (cacheEntries c ! v) \<and>
              DevWrite s n False = wb_call (cacheEntries c ! v) False)"
  using assms
  by (auto simp: NTFS_cache_getPage_def evict_def populate_def dev_read_def dev_write_def
      accessTime_def setEntry_def writeback_def Let_def wb_call_def is_dirty_def
      split: prod.splits option.splits if_splits scan_result.splits)

text \<open>
  The loop of the flush, in full: when it succeeds every entry is clean and one write
  was issued for each dirty entry; when it fails it stopped at a dirty entry \<open>i\<close>, the
  entries before \<open>i\<close> are clean, the entries from \<open>i\<close> on are untouched, and the failed
  write for entry \<open>i\<close> is the last device call.
\<close>

lemma flush_loop_char:
  "flush_loop c es env = (r, es', env') \<Longrightarrow>
     (r \<longrightarrow> es' = map clean es \<and>
        io_log env' = io_log env @ map (\<lambda>e. wb_call e True) (filter is_dirty es)) \<and>
     (\<not> r \<longrightarrow> (\<exists>i<length es. is_dirty (es ! i) \<and>
        es' = map clean (take i es) @ drop i es \<and>
        io_log env' = io_log env @ map (\<lambda>e. wb_call e True) (filter is_dirty (take i es))
                        @ [wb_call (es ! i) False]))"
proof (induction es arbitrary: env r es' env')
  case Nil
  then show ?case by auto
next
  case (Cons e es)
  show ?case
  proof (cases "is_dirty e")
    case False
    obtain r1 es1 env1 where rec: "flush_loop c es env = (r1, es1, env1)"
      by (cases "flush_loop c es env") auto
    with Cons.prems False have eq: "r = r1" "es' = e # es1" "env' = env1"
      by (auto simp: is_dirty_def)
    note IH = Cons.IH [OF rec]
    show ?thesis
    proof (cases r1)
      case True
      with IH eq False show ?thesis by (simp add: clean_id)
    next
      case r1: False
      with IH obtain i where i: "i < length es" "is_dirty (es ! i)"
        "es1 = map clean (take i es) @ drop i es"
        "io_log env1 = io_log env @ map (\<lambda>e. wb_call e True) (filter is_dirty (take i es))
                        @ [wb_call (es ! i) False]"
        by auto
      have "Suc i < length (e # es) \<and> is_dirty ((e # es) ! Suc i) \<and>
        es' = map clean (take (Suc i) (e # es)) @ drop (Suc i) (e # es) \<and>
        io_log env' = io_log env
          @ map (\<lambda>e. wb_call e True) (filter is_dirty (take (Suc i) (e # es)))
          @ [wb_call ((e # es) ! Suc i) False]"
        using i eq False by (simp add: clean_id)
      then show ?thesis using r1 eq by blast
    qed
  next
    case True
    obtain ok env0 where wb: "writeback c e env = (ok, env0)"
      by (cases "writeback c e env") auto
    note wl = writeback_log [OF wb]
    show ?thesis
    proof (cases ok)
      case False
      with Cons.prems True wb have eq: "r = False" "es' = e # es" "env' = env0"
        by (auto simp: is_dirty_def)
      have "0 < length (e # es) \<and> is_dirty ((e # es) ! 0) \<and>
        es' = map clean (take 0 (e # es)) @ drop 0 (e # es) \<and>
        io_log env' = io_log env
          @ map (\<lambda>e. wb_call e True) (filter is_dirty (take 0 (e # es)))
          @ [wb_call ((e # es) ! 0) False]"
        using eq True wl False by simp
      then show ?thesis using eq by blast
    next
      case ok: True
      obtain r1 es1 env1 where rec: "flush_loop c es env0 = (r1, es1, env1)"
        by (cases "flush_loop c es env0") auto
      with Cons.prems True wb ok have eq: "r = r1" "es' = clean e # es1" "env' = env1"
        by (auto simp: is_dirty_def clean_def)
      note IH = Cons.IH [OF rec]
      show ?thesis
      proof (cases r1)
        case True
        with IH eq \<open>is_dirty e\<close> wl ok show ?thesis by simp
      next
        case r1: False
        with IH obtain i where i: "i < length es" "is_dirty (es ! i)"
          "es1 = map clean (take i es) @ drop i es"
          "io_log env1 = io_log env0 @ map (\<lambda>e. wb_call e True) (filter is_dirty (take i es))
                          @ [wb_call (es ! i) False]"
          by auto
        have "Suc i < length (e # es) \<and> is_dirty ((e # es) ! Suc i) \<and>
          es' = map clean (take (Suc i) (e # es)) @ drop (Suc i) (e # es) \<and>
          io_log env' = io_log env
            @ map (\<lambda>e. wb_call e True) (filter is_dirty (take (Suc i) (e # es)))
            @ [wb_call ((e # es) ! Suc i) False]"
          using i eq \<open>is_dirty e\<close> wl ok by simp
        then show ?thesis using r1 eq by blast
      qed
    qed
  qed
qed

lemma take_prefix_facts:
  assumes "i < length (take n xs)"
  shows "take i (take n xs) = take i xs" and "take n xs ! i = xs ! i"
    and "drop i (take n xs) @ drop n xs = drop i xs"
proof -
  from assms have i: "i < n" "i < length xs" by simp_all
  then show "take i (take n xs) = take i xs" by (simp add: min_def)
  from i show "take n xs ! i = xs ! i" by simp
  have "drop n xs = drop (n - i) (drop i xs)" using i by simp
  moreover have "drop i (take n xs) = take (n - i) (drop i xs)" by (simp add: drop_take)
  ultimately show "drop i (take n xs) @ drop n xs = drop i xs"
    by (simp only: append_take_drop_id)
qed

lemma flush_failed_write:
  assumes f: "NTFS_cache_flush c env = (ok, c', env')"
    and l: "io_log env' = io_log env @ evs"
    and w: "DevWrite s n False \<in> set evs"
  shows "\<not> ok \<and>
     (\<exists>i < length (take (unat (numberOfPages c)) (cacheEntries c)).
        is_dirty (cacheEntries c ! i) \<and> DevWrite s n False = wb_call (cacheEntries c ! i) False \<and>
        cacheEntries c' = map clean (take i (cacheEntries c)) @ drop i (cacheEntries c) \<and>
        evs = map (\<lambda>e. wb_call e True) (filter is_dirty (take i (cacheEntries c)))
                @ [DevWrite s n False])"
proof -
  let ?es = "take (unat (numberOfPages c)) (cacheEntries c)"
  obtain r es' env1 where fl: "flush_loop c ?es env = (r, es', env1)"
    by (cases "flush_loop c ?es env") auto
  with f have eq: "ok = r" "env' = env1"
    "cacheEntries c' = es' @ drop (unat (numberOfPages c)) (cacheEntries c)"
    by (auto simp: NTFS_cache_flush_def)
  note ch = flush_loop_char [OF fl]
  have nr: "\<not> r"
  proof
    assume r
    with ch l eq have "evs = map (\<lambda>e. wb_call e True) (filter is_dirty ?es)" by simp
    with w show False by (auto simp: wb_call_def)
  qed
  with ch obtain i where i: "i < length ?es" "is_dirty (?es ! i)"
    "es' = map clean (take i ?es) @ drop i ?es"
    "io_log env1 = io_log env @ map (\<lambda>e. wb_call e True) (filter is_dirty (take i ?es))
                    @ [wb_call (?es ! i) False]"
    by auto
  note ti = take_prefix_facts(1,2) [OF i(1)]
  note dr = take_prefix_facts(3) [OF i(1)]
  from i(4) l eq have evs: "evs = map (\<lambda>e. wb_call e True) (filter is_dirty (take i ?es))
                    @ [wb_call (?es ! i) False]" by simp
  with w have "DevWrite s n False = wb_call (?es ! i) False" by (auto simp: wb_call_def)
  with i evs eq ti dr nr show ?thesis by auto
qed

text \<open>
  Claim C1. A device write that fails is recognised in the list of device calls. When
  \<open>_NTFS_cache_getPage\<close> issues one, it is the write-back of the dirty victim and the
  only device call of the operation; the function returns the null pointer and the
  cache (every slot, with its base sector and its dirty bitmap) and the access counter are
  as before. When \<open>_NTFS_cache_flush\<close> issues one, it is the write-back of a dirty slot
  \<open>i\<close> and the last device call of the operation; the function returns false, the slots
  before \<open>i\<close> are clean and otherwise unchanged, slot \<open>i\<close> and all later slots are
  unchanged, and the device calls are one successful write for each dirty slot before
  \<open>i\<close> followed by the failed one.
\<close>

theorem writeback_failure_keeps_dirty:
  "(NTFS_cache_getPage c env t numSectors write = (r, c', env') \<and>
      io_log env' = io_log env @ evs \<and> DevWrite s n False \<in> set evs \<longrightarrow>
    r = None \<and> c' = c \<and> accessCounter env' = accessCounter env \<and>
    evs = [DevWrite s n False] \<and>
    (\<exists>v. scanPages (take (unat (numberOfPages c)) (cacheEntries c)) t 0 False 0 UINT_MAX
            = Miss False v \<and>
         is_dirty (cacheEntries c ! v) \<and>
         DevWrite s n False = wb_call (cacheEntries c ! v) False)) \<and>
   (NTFS_cache_flush c env = (ok, c'', env'') \<and>
      io_log env'' = io_log env @ evs' \<and> DevWrite s' n' False \<in> set evs' \<longrightarrow>
    \<not> ok \<and>
    (\<exists>i < length (take (unat (numberOfPages c)) (cacheEntries c)).
       is_dirty (cacheEntries c ! i) \<and>
       DevWrite s' n' False = wb_call (cacheEntries c ! i) False \<and>
       cacheEntries c'' = map clean (take i (cacheEntries c)) @ drop i (cacheEntries c) \<and>
       evs' = map (\<lambda>e. wb_call e True) (filter is_dirty (take i (cacheEntries c)))
                @ [DevWrite s' n' False]))"
  using getPage_failed_write [of c env t numSectors "write" r c' env' evs s n]
    flush_failed_write [of c env ok c'' env'' evs' s' n']
  by blast

theorem writeback_failure_keeps_dirty_witness:
  "NTFS_cache_getPage cache1 (env1 [False]) 128 1 False =
     (None, cache1, \<lparr>accessCounter = 4, device = [], io_log = [DevWrite 2 28 False]\<rparr>) \<and>
   (\<exists>v. scanPages (take (unat (numberOfPages cache1)) (cacheEntries cache1)) 128 0 False 0 UINT_MAX
           = Miss False v \<and>
        is_dirty (cacheEntries cache1 ! v) \<and>
        DevWrite 2 28 False = wb_call (cacheEntries cache1 ! v) False) \<and>
   NTFS_cache_flush cache1 (env1 [True, False]) =
     (False,
      cache1\<lparr>cacheEntries := [page_entry 0 1 0, page_entry 32 2 1, page_entry 64 3 0xFF,
                                page_entry 96 4 0]\<rparr>,
      \<lparr>accessCounter = 4, device = [], io_log = [DevWrite 2 28 True, DevWrite 32 1 False]\<rparr>) \<and>
   (\<exists>i < length (take (unat (numberOfPages cache1)) (cacheEntries cache1)).
      is_dirty (cacheEntries cache1 ! i) \<and>
      DevWrite 32 1 False = wb_call (cacheEntries cache1 ! i) False \<and>
      [page_entry 0 1 0, page_entry 32 2 1, page_entry 64 3 0xFF, page_entry 96 4 0]
        = map clean (take i (cacheEntries cache1)) @ drop i (cacheEntries cache1) \<and>
      [DevWrite 2 28 True, DevWrite 32 1 False]
        = map (\<lambda>e. wb_call e True) (filter is_dirty (take i (cacheEntries cache1)))
            @ [DevWrite 32 1 False])"
proof -
  let ?EA = "\<lparr>accessCounter = 4, device = [], io_log = [DevWrite 2 28 False]\<rparr> :: bool list env"
  let ?EB = "\<lparr>accessCounter = 4, device = [],
              io_log = [DevWrite 2 28 True, DevWrite 32 1 False]\<rparr> :: bool list env"
  let ?CB = "cache1\<lparr>cacheEntries := [page_entry 0 1 0, page_entry 32 2 1, page_entry 64 3 0xFF,
                                page_entry 96 4 0]\<rparr>"
  have g: "NTFS_cache_getPage cache1 (env1 [False]) 128 1 False = (None, cache1, ?EA)"
    by (simp add: fixture_eval getPage_eval)
  have f: "NTFS_cache_flush cache1 (env1 [True, False]) = (False, ?CB, ?EB)"
    by (simp add: fixture_eval getPage_eval NTFS_cache_flush_def)
  have la: "io_log ?EA = io_log (env1 [False]) @ [DevWrite 2 28 False]"
    and lb: "io_log ?EB = io_log (env1 [True, False]) @ [DevWrite 2 28 True, DevWrite 32 1 False]"
    by (simp_all add: env1_def)
  have cb: "cacheEntries ?CB =
      [page_entry 0 1 0, page_entry 32 2 1, page_entry 64 3 0xFF, page_entry 96 4 0]"
    by simp
  from writeback_failure_keeps_dirty
         [of cache1 "env1 [False]" 128 1 False None cache1 ?EA "[DevWrite 2 28 False]" 2 28]
       g la
  have A: "\<exists>v. scanPages (take (unat (numberOfPages cache1)) (cacheEntries cache1)) 128 0 False 0
                  UINT_MAX = Miss False v \<and>
        is_dirty (cacheEntries cache1 ! v) \<and>
        DevWrite 2 28 False = wb_call (cacheEntries cache1 ! v) False"
    by simp
  from writeback_failure_keeps_dirty
         [where c = cache1 and env = "env1 [True, False]" and ok = False and c'' = ?CB
            and env'' = ?EB and evs' = "[DevWrite 2 28 True, DevWrite 32 1 False]"
            and s' = 32 and n' = 1]
       f lb
  have B: "\<exists>i < length (take (unat (numberOfPages cache1)) (cacheEntries cache1)).
      is_dirty (cacheEntries cache1 ! i) \<and>
      DevWrite 32 1 False = wb_call (cacheEntries cache1 ! i) False \<and>
      cacheEntries ?CB
        = map clean (take i (cacheEntries cache1)) @ drop i (cacheEntries cache1) \<and>
      [DevWrite 2 28 True, DevWrite 32 1 False]
        = map (\<lambda>e. wb_call e True) (filter is_dirty (take i (cacheEntries cache1)))
            @ [DevWrite 32 1 False]"
    by simp
  from g A f B show ?thesis unfolding cb by blast
qed

section \<open>Failure of the populating read\<close>








section \<open>The read window of a miss\<close>

lemma populate_log:
  assumes "populate c envw v e t numSectors write = (r, c', env')"
    and "W = readWindow write (t - sector (rebase c e t))
           (clampSectors numSectors (ucast (count (rebase c e t))) (t - sector (rebase c e t)))
           (ucast (count (rebase c e t)))"
  shows "(W = None \<longrightarrow>
            r = Some v \<and> io_log env' = io_log envw \<and>
            c' = setEntry c v ((rebase c e t)\<lparr>last_access := accessCounter envw + 1\<rparr>) \<and>
            accessCounter env' = accessCounter envw + 1) \<and>
         (\<forall>sec secs. W = Some (sec, secs) \<longrightarrow>
            (\<exists>ok. io_log env' = io_log envw @ [DevRead (sector (rebase c e t) + sec) secs ok]))"
  using assms
  by (auto simp: populate_def Let_def dev_read_def accessTime_def
      split: prod.splits if_splits option.splits)

lemma evict_keeps_counter:
  "evict c foundFree e0 env = (r, envw) \<Longrightarrow> accessCounter envw = accessCounter env"
  by (auto simp: evict_def writeback_def dev_write_def Let_def split: if_splits prod.splits)

text \<open>
  Claim C2. A miss of \<open>_NTFS_cache_getPage\<close> with \<open>write = true\<close> whose write-back (if
  any) succeeded leaves the device in the state \<open>envw\<close>. With \<open>base\<close> and \<open>cnt\<close> the new
  base sector and sector count of the victim, \<open>local = t - base\<close> and
  \<open>n = min numSectors (cnt - local)\<close> (all in 64-bit arithmetic, as in the code):
  if \<open>local = 0\<close> and \<open>n = cnt\<close> no device call follows and the victim is returned with
  the new base, count and access time; if \<open>local = 0\<close> and \<open>n < cnt\<close> the one device
  call that follows reads \<open>cnt - n\<close> sectors from \<open>base + n\<close>; if \<open>local > 0\<close> and
  \<open>local + n = cnt\<close> it reads \<open>local\<close> sectors from \<open>base\<close>; in every other case it
  reads \<open>cnt\<close> sectors from \<open>base\<close>.
\<close>

theorem write_allocate_window:
  fixes base cnt local n :: sec_t
  assumes miss: "scanPages (take (unat (numberOfPages c)) (cacheEntries c)) t 0 False 0 UINT_MAX
                   = Miss foundFree v"
    and ev: "evict c foundFree (cacheEntries c ! v) env = (Some e, envw)"
    and res: "NTFS_cache_getPage c env t numSectors True = (r, c', env')"
    and base: "base = sector (rebase c e t)"
    and cnt: "cnt = ucast (count (rebase c e t))"
    and local: "local = t - base"
    and n: "n = min numSectors (cnt - local)"
  shows "(local = 0 \<and> n = cnt \<longrightarrow>
            r = Some v \<and> io_log env' = io_log envw \<and>
            (v < length (cacheEntries c) \<longrightarrow>
               sector (cacheEntries c' ! v) = base \<and> ucast (count (cacheEntries c' ! v)) = cnt \<and>
               last_access (cacheEntries c' ! v) = accessCounter env' \<and>
               accessCounter env' = accessCounter env + 1)) \<and>
         (local = 0 \<and> n < cnt \<longrightarrow>
            (\<exists>ok. io_log env' = io_log envw @ [DevRead (base + n) (cnt - n) ok])) \<and>
         (local > 0 \<and> local + n = cnt \<longrightarrow>
            (\<exists>ok. io_log env' = io_log envw @ [DevRead base local ok])) \<and>
         (\<not> (local = 0 \<and> n = cnt) \<and> \<not> (local = 0 \<and> n < cnt) \<and> \<not> (local > 0 \<and> local + n = cnt) \<longrightarrow>
            (\<exists>ok. io_log env' = io_log envw @ [DevRead base cnt ok]))"
proof -
  define W where "W = readWindow True local n cnt"
  have cl: "clampSectors numSectors cnt local = n"
    using n by (auto simp: clampSectors_def min_def)
  have le: "local = 0 \<Longrightarrow> n \<le> cnt"
    using n by (auto simp: min_def)
  have pos: "local \<noteq> 0 \<Longrightarrow> local > 0"
    by (simp add: word_greater_zero_iff)
  have ac: "accessCounter envw = accessCounter env"
    using ev by (rule evict_keeps_counter)
  have pop: "populate c envw v e t numSectors True = (r, c', env')"
    using miss ev res by (simp add: NTFS_cache_getPage_def)
  have W: "W = readWindow True (t - sector (rebase c e t))
           (clampSectors numSectors (ucast (count (rebase c e t))) (t - sector (rebase c e t)))
           (ucast (count (rebase c e t)))"
    using cl by (simp add: W_def base cnt local)
  note pl = populate_log [OF pop W]
  have W1: "local = 0 \<and> n = cnt \<Longrightarrow> W = None"
    and W2: "local = 0 \<and> n < cnt \<Longrightarrow> W = Some (n, cnt - n)"
    and W3: "local > 0 \<and> local + n = cnt \<Longrightarrow> W = Some (0, local)"
    and W4: "\<not> (local = 0 \<and> n = cnt) \<and> \<not> (local = 0 \<and> n < cnt) \<and> \<not> (local > 0 \<and> local + n = cnt)
              \<Longrightarrow> W = Some (0, cnt)"
    using le pos by (auto simp: W_def readWindow_def)
  have c1: "local = 0 \<and> n = cnt \<longrightarrow>
            r = Some v \<and> io_log env' = io_log envw \<and>
            (v < length (cacheEntries c) \<longrightarrow>
               sector (cacheEntries c' ! v) = base \<and> ucast (count (cacheEntries c' ! v)) = cnt \<and>
               last_access (cacheEntries c' ! v) = accessCounter env' \<and>
               accessCounter env' = accessCounter env + 1)"
    using pl W1 ac by (auto simp: setEntry_def base cnt)
  have c2: "local = 0 \<and> n < cnt \<longrightarrow>
            (\<exists>ok. io_log env' = io_log envw @ [DevRead (base + n) (cnt - n) ok])"
    using pl W2 by (auto simp: base)
  have c3: "local > 0 \<and> local + n = cnt \<longrightarrow>
            (\<exists>ok. io_log env' = io_log envw @ [DevRead base local ok])"
    using pl W3 by (auto simp: base)
  have c4: "\<not> (local = 0 \<and> n = cnt) \<and> \<not> (local = 0 \<and> n < cnt) \<and> \<not> (local > 0 \<and> local + n = cnt) \<longrightarrow>
            (\<exists>ok. io_log env' = io_log envw @ [DevRead base cnt ok])"
    using pl W4 by (auto simp: base)
  from c1 c2 c3 c4 show ?thesis by blast
qed


theorem write_allocate_window_witness:
  "scanPages (take (unat (numberOfPages cache0)) (cacheEntries cache0)) 0 0 False 0 UINT_MAX
     = Miss True 0 \<and>
   evict cache0 True (cacheEntries cache0 ! 0) env0 = (Some free_entry, env0) \<and>
   fst (NTFS_cache_getPage cache0 env0 0 32 True) = Some 0 \<and>
   io_log (snd (snd (NTFS_cache_getPage cache0 env0 0 32 True))) = io_log env0 \<and>
   sector (cacheEntries (fst (snd (NTFS_cache_getPage cache0 env0 0 32 True))) ! 0) = 0 \<and>
   ucast (count (cacheEntries (fst (snd (NTFS_cache_getPage cache0 env0 0 32 True))) ! 0))
     = (32 :: sec_t) \<and>
   last_access (cacheEntries (fst (snd (NTFS_cache_getPage cache0 env0 0 32 True))) ! 0) = 1 \<and>
   (\<exists>ok. io_log (snd (snd (NTFS_cache_getPage cache0 env0 0 8 True)))
           = io_log env0 @ [DevRead 8 24 ok]) \<and>
   (\<exists>ok. io_log (snd (snd (NTFS_cache_getPage cache0 env0 24 8 True)))
           = io_log env0 @ [DevRead 0 24 ok]) \<and>
   (\<exists>ok. io_log (snd (snd (NTFS_cache_getPage cache0 env0 3 1 True)))
           = io_log env0 @ [DevRead 0 32 ok])"
proof -
  have miss: "scanPages (take (unat (numberOfPages cache0)) (cacheEntries cache0)) 0 0 False 0 UINT_MAX
     = Miss True 0"
    and miss24: "scanPages (take (unat (numberOfPages cache0)) (cacheEntries cache0)) 24 0 False 0
       UINT_MAX = Miss True 0"
    and miss3: "scanPages (take (unat (numberOfPages cache0)) (cacheEntries cache0)) 3 0 False 0
       UINT_MAX = Miss True 0"
    by (simp_all add: fixture_eval getPage_eval)
  have ev: "evict cache0 True (cacheEntries cache0 ! 0) env0 = (Some free_entry, env0)"
    by (simp add: fixture_eval getPage_eval)
  have res: "NTFS_cache_getPage cache0 env0 t k True =
      (fst (NTFS_cache_getPage cache0 env0 t k True),
       fst (snd (NTFS_cache_getPage cache0 env0 t k True)),
       snd (snd (NTFS_cache_getPage cache0 env0 t k True)))" for t k
    by simp
  have rb: "sector (rebase cache0 free_entry 0) = 0" "sector (rebase cache0 free_entry 24) = 0"
    "sector (rebase cache0 free_entry 3) = 0"
    "count (rebase cache0 free_entry 0) = 32" "count (rebase cache0 free_entry 24) = 32"
    "count (rebase cache0 free_entry 3) = 32"
    by (simp_all add: fixture_eval getPage_eval)
  have len: "0 < length (cacheEntries cache0)" by (simp add: cache0_def)
  have ac: "accessCounter env0 = 0" by (simp add: env0_def)
  note A = write_allocate_window [OF miss ev res refl refl refl refl, of 32]
  note B = write_allocate_window [OF miss ev res refl refl refl refl, of 8]
  note C = write_allocate_window [OF miss24 ev res refl refl refl refl, of 8]
  note D = write_allocate_window [OF miss3 ev res refl refl refl refl, of 1]
  have a: "fst (NTFS_cache_getPage cache0 env0 0 32 True) = Some 0 \<and>
   io_log (snd (snd (NTFS_cache_getPage cache0 env0 0 32 True))) = io_log env0 \<and>
   sector (cacheEntries (fst (snd (NTFS_cache_getPage cache0 env0 0 32 True))) ! 0) = 0 \<and>
   ucast (count (cacheEntries (fst (snd (NTFS_cache_getPage cache0 env0 0 32 True))) ! 0))
     = (32 :: sec_t) \<and>
   last_access (cacheEntries (fst (snd (NTFS_cache_getPage cache0 env0 0 32 True))) ! 0) = 1"
    using A len ac by (simp add: rb)
  have b: "\<exists>ok. io_log (snd (snd (NTFS_cache_getPage cache0 env0 0 8 True)))
           = io_log env0 @ [DevRead 8 24 ok]"
    using B by (simp add: rb)
  have c: "\<exists>ok. io_log (snd (snd (NTFS_cache_getPage cache0 env0 24 8 True)))
           = io_log env0 @ [DevRead 0 24 ok]"
    using C by (simp add: rb)
  have d: "\<exists>ok. io_log (snd (snd (NTFS_cache_getPage cache0 env0 3 1 True)))
           = io_log env0 @ [DevRead 0 32 ok]"
    using D by (simp add: rb)
  from miss ev a b c d show ?thesis by blast
qed

section \<open>Choice of the victim\<close>

lemma uint_max_top: "\<not> x < UINT_MAX \<Longrightarrow> x = UINT_MAX"
proof -
  assume a: "\<not> x < UINT_MAX"
  have "unat x < 2 ^ 32" using unsigned_less [of x, where 'a = nat] by simp
  moreover have "unat UINT_MAX = 2 ^ 32 - 1" by (simp add: UINT_MAX_def)
  ultimately have "unat x = unat UINT_MAX" using a by (simp add: word_less_nat_alt)
  then show ?thesis by (simp add: word_unat_eq_iff)
qed

lemma scan_inv_step:
  assumes inv: "scan_inv pre ff old oa"
  shows "\<not> ff \<and> (sector e = CACHE_FREE \<or> last_access e < oa) \<Longrightarrow>
           scan_inv (pre @ [e]) (sector e = CACHE_FREE) (length pre) (last_access e)"
    and "\<not> (\<not> ff \<and> (sector e = CACHE_FREE \<or> last_access e < oa)) \<Longrightarrow>
           scan_inv (pre @ [e]) ff old oa"
proof -
  assume u: "\<not> ff \<and> (sector e = CACHE_FREE \<or> last_access e < oa)"
  with inv have nf: "\<forall>e\<in>set pre. sector e \<noteq> CACHE_FREE"
    and le: "\<forall>j<length pre. oa \<le> last_access (pre ! j)"
    by (auto simp: scan_inv_def)
  show "scan_inv (pre @ [e]) (sector e = CACHE_FREE) (length pre) (last_access e)"
  proof (cases "sector e = CACHE_FREE")
    case True
    then show ?thesis using nf by (auto simp: scan_inv_def nth_append)
  next
    case False
    with u have lt: "last_access e < oa" by simp
    have "\<forall>j<length pre. last_access e < last_access (pre ! j)"
      using le lt by (meson less_le_trans)
    then show ?thesis using False nf by (auto simp: scan_inv_def nth_append less_Suc_eq)
  qed
next
  assume n: "\<not> (\<not> ff \<and> (sector e = CACHE_FREE \<or> last_access e < oa))"
  show "scan_inv (pre @ [e]) ff old oa"
  proof (cases ff)
    case True
    with inv show ?thesis by (auto simp: scan_inv_def nth_append)
  next
    case False
    with n have ne: "sector e \<noteq> CACHE_FREE" and ge: "\<not> last_access e < oa" by auto
    show ?thesis
    proof (cases "pre = []")
      case True
      with inv False have "old = 0" "oa = UINT_MAX" by (auto simp: scan_inv_def)
      with ge uint_max_top [of "last_access e"] True False ne show ?thesis
        by (auto simp: scan_inv_def)
    next
      case pne: False
      with inv False ne ge show ?thesis
        by (auto simp: scan_inv_def nth_append less_Suc_eq not_less)
    qed
  qed
qed

lemma scanPages_inv:
  assumes "scan_inv pre ff old oa" and "\<forall>e\<in>set es. \<not> covers e t"
  shows "\<exists>ff' v oa'. scanPages es t (length pre) ff old oa = Miss ff' v \<and>
           scan_inv (pre @ es) ff' v oa'"
  using assms
proof (induction es arbitrary: pre ff old oa)
  case Nil
  then show ?case by auto
next
  case (Cons e es)
  from Cons.prems have nc: "\<not> covers e t" and rest: "\<forall>e\<in>set es. \<not> covers e t" by auto
  show ?case
  proof (cases "\<not> ff \<and> (sector e = CACHE_FREE \<or> last_access e < oa)")
    case True
    note inv' = scan_inv_step(1) [OF Cons.prems(1) True]
    from Cons.IH [OF inv' rest] True nc show ?thesis by simp
  next
    case False
    note inv' = scan_inv_step(2) [OF Cons.prems(1) False]
    from Cons.IH [OF inv' rest] False nc show ?thesis by auto
  qed
qed

lemma getPage_frame:
  assumes "scanPages (take (unat (numberOfPages c)) (cacheEntries c)) t 0 False 0 UINT_MAX
             = Miss ff v"
    and "NTFS_cache_getPage c env t numSectors write = (r, c', env')"
  shows "length (cacheEntries c') = length (cacheEntries c) \<and>
         (\<forall>j. j \<noteq> v \<longrightarrow> cacheEntries c' ! j = cacheEntries c ! j) \<and>
         (r = None \<or> r = Some v)"
  using assms
  by (auto simp: NTFS_cache_getPage_def populate_def setEntry_def Let_def
      split: prod.splits option.splits if_splits)

text \<open>
  Claim C3. When no slot holds the sector \<open>t\<close>, the scan of \<open>_NTFS_cache_getPage\<close> ends
  with a victim \<open>v\<close>: the free slot of lowest index when a slot is free; otherwise a slot
  whose access time is the smallest, and the first of these. The victim is the slot
  \<open>_NTFS_cache_getPage\<close> works on: no other slot changes, and a page that is returned
  is the victim.
\<close>

theorem victim_selection:
  assumes es: "es = take (unat (numberOfPages c)) (cacheEntries c)"
    and ne: "es \<noteq> []"
    and miss: "\<forall>e\<in>set es. \<not> covers e t"
  shows "\<exists>ff v. scanPages es t 0 False 0 UINT_MAX = Miss ff v \<and> v < length es \<and>
     ((\<exists>e\<in>set es. sector e = CACHE_FREE) \<longrightarrow>
        ff \<and> sector (es ! v) = CACHE_FREE \<and> (\<forall>j<v. sector (es ! j) \<noteq> CACHE_FREE)) \<and>
     (\<not> (\<exists>e\<in>set es. sector e = CACHE_FREE) \<longrightarrow>
        \<not> ff \<and> (\<forall>j<length es. last_access (es ! v) \<le> last_access (es ! j)) \<and>
        (\<forall>j<v. last_access (es ! v) < last_access (es ! j))) \<and>
     (\<forall>env numSectors write r c' env'.
        NTFS_cache_getPage c env t numSectors write = (r, c', env') \<longrightarrow>
        length (cacheEntries c') = length (cacheEntries c) \<and>
        (\<forall>j. j \<noteq> v \<longrightarrow> cacheEntries c' ! j = cacheEntries c ! j) \<and>
        (r = None \<or> r = Some v))"
proof -
  have "scan_inv [] False 0 UINT_MAX" by (simp add: scan_inv_def)
  from scanPages_inv [OF this miss] obtain ff v oa where
    sc: "scanPages es t 0 False 0 UINT_MAX = Miss ff v" and inv: "scan_inv es ff v oa"
    by auto
  have v: "v < length es" using inv ne by (auto simp: scan_inv_def)
  have free: "(\<exists>e\<in>set es. sector e = CACHE_FREE) \<longrightarrow>
        ff \<and> sector (es ! v) = CACHE_FREE \<and> (\<forall>j<v. sector (es ! j) \<noteq> CACHE_FREE)"
    using inv by (auto simp: scan_inv_def)
  have lru: "\<not> (\<exists>e\<in>set es. sector e = CACHE_FREE) \<longrightarrow>
        \<not> ff \<and> (\<forall>j<length es. last_access (es ! v) \<le> last_access (es ! j)) \<and>
        (\<forall>j<v. last_access (es ! v) < last_access (es ! j))"
    using inv ne v by (auto simp: scan_inv_def)
  have fr: "\<forall>env numSectors write r c' env'.
        NTFS_cache_getPage c env t numSectors write = (r, c', env') \<longrightarrow>
        length (cacheEntries c') = length (cacheEntries c) \<and>
        (\<forall>j. j \<noteq> v \<longrightarrow> cacheEntries c' ! j = cacheEntries c ! j) \<and>
        (r = None \<or> r = Some v)"
    using getPage_frame [OF sc [unfolded es]] by blast
  from sc v free lru fr show ?thesis by blast
qed


theorem victim_selection_witness:
  "take (unat (numberOfPages cache2)) (cacheEntries cache2) \<noteq> [] \<and>
   \<not> (\<exists>e\<in>set (take (unat (numberOfPages cache2)) (cacheEntries cache2)). covers e 128) \<and>
   scanPages (take (unat (numberOfPages cache2)) (cacheEntries cache2)) 128 0 False 0 UINT_MAX
     = Miss True 2 \<and>
   sector (cacheEntries cache2 ! 2) = CACHE_FREE \<and>
   \<not> (\<exists>j<2. sector (cacheEntries cache2 ! j) = CACHE_FREE) \<and>
   take (unat (numberOfPages cache3)) (cacheEntries cache3) \<noteq> [] \<and>
   \<not> (\<exists>e\<in>set (take (unat (numberOfPages cache3)) (cacheEntries cache3)). covers e 128) \<and>
   scanPages (take (unat (numberOfPages cache3)) (cacheEntries cache3)) 128 0 False 0 UINT_MAX
     = Miss False 1 \<and>
   \<not> (\<exists>j<4. last_access (cacheEntries cache3 ! j) < last_access (cacheEntries cache3 ! 1)) \<and>
   \<not> (\<exists>j<1. last_access (cacheEntries cache3 ! j) \<le> last_access (cacheEntries cache3 ! 1))"
proof -
  let ?es2 = "take (unat (numberOfPages cache2)) (cacheEntries cache2)"
  let ?es3 = "take (unat (numberOfPages cache3)) (cacheEntries cache3)"
  have e2: "?es2 = cacheEntries cache2" and e3: "?es3 = cacheEntries cache3"
    by (simp_all add: cache2_def cache3_def)
  have n2: "?es2 \<noteq> []" and n3: "?es3 \<noteq> []"
    by (simp_all add: cache2_def cache3_def)
  have m2: "\<forall>e\<in>set ?es2. \<not> covers e 128" and m3: "\<forall>e\<in>set ?es3. \<not> covers e 128"
    by (simp_all add: cache2_def cache3_def fixture_eval covers_def CACHE_FREE_def)
  have s2: "scanPages ?es2 128 0 False 0 UINT_MAX = Miss True 2"
    and s3: "scanPages ?es3 128 0 False 0 UINT_MAX = Miss False 1"
    by (simp_all add: cache2_def cache3_def fixture_eval getPage_eval)
  have f2: "\<exists>e\<in>set ?es2. sector e = CACHE_FREE"
    and f3: "\<not> (\<exists>e\<in>set ?es3. sector e = CACHE_FREE)"
    by (simp_all add: cache2_def cache3_def fixture_eval CACHE_FREE_def)
  have l3: "length ?es3 = 4" by (simp add: cache3_def)
  from victim_selection [OF refl n2 m2] s2 f2
  have A: "sector (?es2 ! 2) = CACHE_FREE \<and> (\<forall>j<2. sector (?es2 ! j) \<noteq> CACHE_FREE)"
    by auto
  from victim_selection [OF refl n3 m3] s3 f3
  have B: "(\<forall>j<length ?es3. last_access (?es3 ! 1) \<le> last_access (?es3 ! j)) \<and>
           (\<forall>j<1. last_access (?es3 ! 1) < last_access (?es3 ! j))"
    by auto
  from A B n2 n3 m2 m3 s2 s3 show ?thesis
    unfolding l3 unfolding e2 e3 by (auto simp: not_less not_le)
qed

section \<open>Construction\<close>

lemma constructor_none_iff:
  "NTFS_cache_constructor al P S d E B = None \<longleftrightarrow>
     P = 0 \<or> S = 0 \<or> \<not> alloc_cache al \<or> \<not> alloc_entries al"
  by (simp add: NTFS_cache_constructor_def Let_def)

lemma clamp_pages: "(if P < 4 then 4 else P) = max P (4 :: uint)"
proof (cases "P < 4")
  case True
  then have "P \<le> 4" by (rule less_imp_le)
  with True show ?thesis by (simp add: max_def)
next
  case False
  then have "4 \<le> P" by (simp add: not_less)
  with False show ?thesis by (simp add: max.absorb1)
qed

lemma clamp_sectors:
  "(if S < 32 then 32 else if S > 64 then 64 else S) = max 32 (min S (64 :: uint))"
proof -
  have "unat (if S < 32 then 32 else if S > 64 then 64 else S)
          = max 32 (min (unat S) 64)"
    by (auto simp: word_less_nat_alt)
  moreover have "unat (max 32 (min S (64 :: uint))) = max 32 (min (unat S) 64)"
    by (auto simp: max_def min_def word_le_nat_alt)
  ultimately show ?thesis by (simp add: word_unat_eq_iff)
qed

lemma clamp_sectors_range:
  "32 \<le> max 32 (min S (64 :: uint)) \<and> max 32 (min S (64 :: uint)) \<le> 64"
  by simp

lemma constructor_some:
  assumes "NTFS_cache_constructor al P S d E B = Some c"
  shows "numberOfPages c = max P 4 \<and> sectorsPerPage c = max 32 (min S 64) \<and>
         disc c = d \<and> endOfPartition c = E \<and> bytesPerSector c = B \<and>
         cacheEntries c =
           map (\<lambda>i. \<lparr>sector = CACHE_FREE, count = 0, last_access = 0, dirty = 0,
                      cache = ntfs_align al i (unat (max 32 (min S 64) * B))\<rparr>)
             [0..<unat (max P 4)]"
proof -
  from assms have ok: "P \<noteq> 0" "S \<noteq> 0" "alloc_cache al" "alloc_entries al"
    using constructor_none_iff [of al P S d E B] by auto
  with assms show ?thesis
    unfolding NTFS_cache_constructor_def Let_def clamp_pages clamp_sectors
    by auto
qed


text \<open>
  Claim C9, as stated, fails. The access counter is a variable of the file, not of the
  cache: a second cache constructed after one partial read on the first finds the counter
  at 1. And the result of \<open>ntfs_align\<close> is stored unchecked: when these allocations fail
  the constructor still returns a cache, whose slots have null buffers.
\<close>

theorem constructor_counterexample:
  "construct good_alloc env0 4 32 scripted_disc 4096 512 = (Some cache0, env0) \<and>
   NTFS_cache_readPartialSector cache0 env0 [] 0 0 0 =
     (True, [],
      cache0\<lparr>cacheEntries :=
         [\<lparr>sector = 0, count = 32, last_access = 1, dirty = 0,
           cache = buf_store (Some (replicate 16384 0)) 0 (replicate 16384 0)\<rparr>,
          free_entry, free_entry, free_entry]\<rparr>,
      \<lparr>accessCounter = 1, device = [], io_log = [DevRead 0 32 True]\<rparr>) \<and>
   construct good_alloc \<lparr>accessCounter = 1, device = [], io_log = [DevRead 0 32 True]\<rparr>
       4 32 scripted_disc 4096 512 =
     (Some cache0, \<lparr>accessCounter = 1, device = [], io_log = [DevRead 0 32 True]\<rparr>) \<and>
   accessCounter \<lparr>accessCounter = 1, device = ([] :: bool list), io_log = [DevRead 0 32 True]\<rparr>
     \<noteq> 0 \<and>
   NTFS_cache_constructor no_buffers 4 32 scripted_disc 4096 512 =
     Some (cache0\<lparr>cacheEntries :=
       [free_entry\<lparr>cache := None\<rparr>, free_entry\<lparr>cache := None\<rparr>, free_entry\<lparr>cache := None\<rparr>,
        free_entry\<lparr>cache := None\<rparr>]\<rparr>)"
proof -
  have a: "NTFS_cache_constructor good_alloc 4 32 (scripted_disc :: bool list DISC_INTERFACE) 4096 512 = Some cache0"
    by (simp add: NTFS_cache_constructor_def good_alloc_def cache0_def free_entry_def
        upt_rec CACHE_FREE_def)
  have b: "NTFS_cache_readPartialSector cache0 env0 [] 0 0 0 =
     (True, [],
      cache0\<lparr>cacheEntries :=
         [\<lparr>sector = 0, count = 32, last_access = 1, dirty = 0,
           cache = buf_store (Some (replicate 16384 0)) 0 (replicate 16384 0)\<rparr>,
          free_entry, free_entry, free_entry]\<rparr>,
      \<lparr>accessCounter = 1, device = [], io_log = [DevRead 0 32 True]\<rparr>)"
    by (simp add: fixture_eval NTFS_cache_readPartialSector_def getPage_eval store_def
        buf_store_def)
  have c: "NTFS_cache_constructor no_buffers 4 32 scripted_disc 4096 512 =
     Some (cache0\<lparr>cacheEntries :=
       [free_entry\<lparr>cache := None\<rparr>, free_entry\<lparr>cache := None\<rparr>, free_entry\<lparr>cache := None\<rparr>,
        free_entry\<lparr>cache := None\<rparr>]\<rparr>)"
    by (simp add: NTFS_cache_constructor_def no_buffers_def cache0_def free_entry_def
        upt_rec CACHE_FREE_def)
  from a b c show ?thesis by (simp add: construct_def)
qed

text \<open>
  Claim C9, amended. When every \<open>ntfs_align\<close> call succeeds, the constructor returns none
  exactly when \<open>numberOfPages\<close> or \<open>sectorsPerPage\<close> is 0 as passed, or \<open>ntfs_alloc\<close>
  fails for the cache object or for the table of entries. A cache that is returned has
  \<open>numberOfPages\<close> raised to at least 4, \<open>sectorsPerPage\<close> clamped into 32 to 64, as
  many entries as pages, and every entry free with count, access time and dirty bitmap 0
  and a buffer. The constructor leaves the access counter as it finds it.
\<close>

theorem constructor_result:
  assumes "\<forall>i n. ntfs_align al i n \<noteq> None"
  shows "(NTFS_cache_constructor al P S d E B = None \<longleftrightarrow>
            P = 0 \<or> S = 0 \<or> \<not> alloc_cache al \<or> \<not> alloc_entries al) \<and>
         (\<forall>c. NTFS_cache_constructor al P S d E B = Some c \<longrightarrow>
            numberOfPages c = max P 4 \<and> sectorsPerPage c = max 32 (min S 64) \<and>
            32 \<le> sectorsPerPage c \<and> sectorsPerPage c \<le> 64 \<and>
            disc c = d \<and> endOfPartition c = E \<and> bytesPerSector c = B \<and>
            length (cacheEntries c) = unat (numberOfPages c) \<and>
            (\<forall>e\<in>set (cacheEntries c).
               sector e = CACHE_FREE \<and> count e = 0 \<and> last_access e = 0 \<and> dirty e = 0 \<and>
               cache e \<noteq> None)) \<and>
         snd (construct al env P S d E B) = env"
proof -
  have some: "numberOfPages c = max P 4 \<and> sectorsPerPage c = max 32 (min S 64) \<and>
            32 \<le> sectorsPerPage c \<and> sectorsPerPage c \<le> 64 \<and>
            disc c = d \<and> endOfPartition c = E \<and> bytesPerSector c = B \<and>
            length (cacheEntries c) = unat (numberOfPages c) \<and>
            (\<forall>e\<in>set (cacheEntries c).
               sector e = CACHE_FREE \<and> count e = 0 \<and> last_access e = 0 \<and> dirty e = 0 \<and>
               cache e \<noteq> None)"
    if c: "NTFS_cache_constructor al P S d E B = Some c" for c
  proof -
    note cs = constructor_some [OF c]
    from cs have f: "numberOfPages c = max P 4" "sectorsPerPage c = max 32 (min S 64)"
      "disc c = d" "endOfPartition c = E" "bytesPerSector c = B" by simp_all
    from cs have es: "cacheEntries c =
           map (\<lambda>i. \<lparr>sector = CACHE_FREE, count = 0, last_access = 0, dirty = 0,
                      cache = ntfs_align al i (unat (max 32 (min S 64) * B))\<rparr>)
             [0..<unat (max P 4)]" by simp
    have len: "length (cacheEntries c) = unat (numberOfPages c)"
      by (simp add: es f)
    have all: "\<forall>e\<in>set (cacheEntries c).
               sector e = CACHE_FREE \<and> count e = 0 \<and> last_access e = 0 \<and> dirty e = 0 \<and>
               cache e \<noteq> None"
      unfolding es using assms by auto
    from f len all clamp_sectors_range [of S] show ?thesis by simp
  qed
  have 1: "NTFS_cache_constructor al P S d E B = None \<longleftrightarrow>
            P = 0 \<or> S = 0 \<or> \<not> alloc_cache al \<or> \<not> alloc_entries al"
    by (rule constructor_none_iff)
  have 2: "\<forall>c. NTFS_cache_constructor al P S d E B = Some c \<longrightarrow>
            numberOfPages c = max P 4 \<and> sectorsPerPage c = max 32 (min S 64) \<and>
            32 \<le> sectorsPerPage c \<and> sectorsPerPage c \<le> 64 \<and>
            disc c = d \<and> endOfPartition c = E \<and> bytesPerSector c = B \<and>
            length (cacheEntries c) = unat (numberOfPages c) \<and>
            (\<forall>e\<in>set (cacheEntries c).
               sector e = CACHE_FREE \<and> count e = 0 \<and> last_access e = 0 \<and> dirty e = 0 \<and>
               cache e \<noteq> None)"
    using some by (intro allI impI)
  have 3: "snd (construct al env P S d E B) = env"
    by (simp add: construct_def)
  show ?thesis by (rule conjI [OF 1 conjI [OF 2 3]])
qed

theorem constructor_result_witness:
  "\<not> (\<exists>i n. ntfs_align good_alloc i n = None) \<and>
   NTFS_cache_constructor good_alloc 2 100 scripted_disc 4096 512 \<noteq> None \<and>
   numberOfPages (the (NTFS_cache_constructor good_alloc 2 100 scripted_disc 4096 512)) = 4 \<and>
   sectorsPerPage (the (NTFS_cache_constructor good_alloc 2 100 scripted_disc 4096 512)) = 64 \<and>
   length (cacheEntries (the (NTFS_cache_constructor good_alloc 2 100 scripted_disc 4096 512))) = 4 \<and>
   \<not> (\<exists>e\<in>set (cacheEntries (the (NTFS_cache_constructor good_alloc 2 100 scripted_disc 4096 512))).
        \<not> (sector e = CACHE_FREE \<and> count e = 0 \<and> last_access e = 0 \<and> dirty e = 0 \<and>
           cache e \<noteq> None)) \<and>
   NTFS_cache_constructor good_alloc 0 32 scripted_disc 4096 512 = None \<and>
   snd (construct good_alloc env0 2 100 scripted_disc 4096 512) = env0"
proof -
  have al: "\<forall>i n. ntfs_align good_alloc i n \<noteq> None" by (simp add: good_alloc_def)
  have ok: "alloc_cache good_alloc" "alloc_entries good_alloc" by (simp_all add: good_alloc_def)
  note A = constructor_result [OF al, of 2 100 scripted_disc 4096 512 env0]
  note B = constructor_result [OF al, of 0 32 scripted_disc 4096 512 env0]
  have some: "NTFS_cache_constructor good_alloc 2 100 scripted_disc 4096 512 \<noteq> None"
    unfolding A [THEN conjunct1] using ok by simp
  then obtain c where c: "NTFS_cache_constructor good_alloc 2 100 scripted_disc 4096 512 = Some c"
    by (cases "NTFS_cache_constructor good_alloc 2 100 (scripted_disc :: bool list DISC_INTERFACE) 4096 512") auto
  have mx: "max (2 :: uint) 4 = 4" "max 32 (min (100 :: uint) 64) = 64" by simp_all
  note Ac = A [THEN conjunct2, THEN conjunct1, rule_format, OF c]
  from Ac have props: "numberOfPages c = 4 \<and> sectorsPerPage c = 64 \<and>
     length (cacheEntries c) = 4 \<and>
     (\<forall>e\<in>set (cacheEntries c).
               sector e = CACHE_FREE \<and> count e = 0 \<and> last_access e = 0 \<and> dirty e = 0 \<and>
               cache e \<noteq> None)"
    by (simp add: mx)
  have n0: "NTFS_cache_constructor good_alloc 0 32 scripted_disc 4096 512 = None"
    unfolding B [THEN conjunct1] by simp
  note sn = A [THEN conjunct2, THEN conjunct2]
  have al': "\<not> (\<exists>i n. ntfs_align good_alloc i n = None)" using al by blast
  from props have ex: "\<not> (\<exists>e\<in>set (cacheEntries c).
        \<not> (sector e = CACHE_FREE \<and> count e = 0 \<and> last_access e = 0 \<and> dirty e = 0 \<and>
           cache e \<noteq> None))" by blast
  from props have p3: "numberOfPages c = 4" "sectorsPerPage c = 64" "length (cacheEntries c) = 4"
    by blast+
  show ?thesis
    unfolding c option.sel using al' p3 ex n0 sn by (intro conjI) simp_all
qed

section \<open>Aligned bulk transfers\<close>

lemma unat_ucast_uint: "unat (ucast (x :: uint) :: sec_t) = unat x"
  by (simp add: unsigned_ucast_eq take_bit_nat_eq_self_iff)
     (use unsigned_less [of x, where 'a = nat] in simp)

lemma intersect_meets:
  assumes i: "intersect e t n" and c: "count e \<noteq> 0" and n: "n \<noteq> 0"
  shows "ranges_meet e t (unat n)"
proof (cases "t > sector e")
  case True
  then have le: "sector e \<le> t" by simp
  from True i have "t - sector e < ucast (count e)" by (simp add: intersect_def)
  then have "unat t - unat (sector e) < unat (count e)"
    by (simp add: word_less_nat_alt unat_sub [OF le] unat_ucast_uint)
  moreover from True have "unat (sector e) < unat t" by (simp add: word_less_nat_alt)
  moreover from n have "0 < unat n" by (simp add: unat_gt_0)
  ultimately have "unat t \<in> {unat (sector e) ..< unat (sector e) + unat (count e)} \<inter> {unat t ..< unat t + unat n}"
    by auto
  then show ?thesis unfolding ranges_meet_def by blast
next
  case False
  then have le: "t \<le> sector e" by (simp add: not_less)
  from False i have "sector e - t < n" by (simp add: intersect_def)
  then have "unat (sector e) - unat t < unat n"
    by (simp add: word_less_nat_alt unat_sub [OF le])
  moreover from le have "unat t \<le> unat (sector e)" by (simp add: word_le_nat_alt)
  moreover from c have "0 < unat (count e)" by (simp add: unat_gt_0)
  ultimately have "unat (sector e) \<in> {unat (sector e) ..< unat (sector e) + unat (count e)} \<inter> {unat t ..< unat t + unat n}"
    by auto
  then show ?thesis unfolding ranges_meet_def by blast
qed


lemma findPage_loop_none:
  assumes "\<forall>e\<in>set es. sector e \<noteq> CACHE_FREE \<longrightarrow> \<not> intersect e t n"
  shows "findPage_loop es t n i None lowest = None"
  using assms by (induction es arbitrary: i) auto

lemma findPage_loop_some:
  "findPage_loop es t n i entry lowest = Some k \<Longrightarrow>
     entry = Some k \<or> (i \<le> k \<and> k - i < length es \<and> intersect (es ! (k - i)) t n)"
proof (induction es arbitrary: i entry lowest)
  case Nil
  then show ?case by simp
next
  case (Cons e es)
  show ?case
  proof (cases "sector e \<noteq> CACHE_FREE \<and> intersect e t n \<and> sector e < lowest")
    case True
    with Cons.prems have "findPage_loop es t n (Suc i) (Some i) (sector e) = Some k" by simp
    from Cons.IH [OF this] True show ?thesis
      by (auto simp: nth_Cons' Suc_diff_le)
  next
    case False
    with Cons.prems have "findPage_loop es t n (Suc i) entry lowest = Some k" by auto
    from Cons.IH [OF this] show ?thesis
      by (auto simp: nth_Cons' Suc_diff_le)
  qed
qed

lemma findPage_loop_found:
  assumes "entry \<noteq> None \<or>
           (\<exists>e\<in>set es. sector e \<noteq> CACHE_FREE \<and> intersect e t n \<and> sector e < lowest)"
  shows "findPage_loop es t n i entry lowest \<noteq> None"
  using assms
proof (induction es arbitrary: i entry lowest)
  case Nil
  then show ?case by simp
next
  case (Cons e es)
  show ?case
  proof (cases "sector e \<noteq> CACHE_FREE \<and> intersect e t n \<and> sector e < lowest")
    case True
    then show ?thesis using Cons.IH [of "Some i" "sector e" "Suc i"] by simp
  next
    case False
    with Cons.prems have "entry \<noteq> None \<or>
           (\<exists>e\<in>set es. sector e \<noteq> CACHE_FREE \<and> intersect e t n \<and> sector e < lowest)"
      by auto
    from Cons.IH [OF this, of "Suc i"] False show ?thesis by auto
  qed
qed

lemma whole_pages:
  fixes n :: sec_t and S :: uint
  assumes n: "unat n = k * unat S" and S: "S \<noteq> 0"
  shows "(n div ucast S) * ucast S = n"
proof -
  have S': "unat (ucast S :: sec_t) = unat S" by (rule unat_ucast_uint)
  have pos: "0 < unat S" using S by (simp add: unat_gt_0)
  have d: "unat (n div ucast S) = k" using n pos by (simp add: unat_div S')
  have "unat (n div ucast S) * unat (ucast S :: sec_t) = unat n" using d n S' by simp
  moreover have "unat n < 2 ^ LENGTH(64)" by (rule unsigned_less)
  ultimately have "unat ((n div ucast S) * ucast S) = unat n"
    using unat_mult_lem [of "n div ucast S" "ucast S :: sec_t"] by simp
  then show ?thesis by (simp add: word_unat_eq_iff)
qed


lemma readSectors_loop_zero:
  "readSectors_loop c env t 0 addr off buf = Some (True, buf, c, env)"
  by (subst readSectors_loop.simps) simp

lemma writeSectors_loop_zero:
  "writeSectors_loop c env t 0 addr off buf = Some (Returns (True, c, env))"
  by (subst writeSectors_loop.simps) simp

lemma readSectors_loop_bypass:
  assumes "numSectors \<noteq> 0" and "(addr + off) mod 32 = 0"
    and "t mod ucast (sectorsPerPage c) = 0"
    and "bypassSectors c t numSectors = numSectors"
    and "dev_read (disc c) env t numSectors = (ok, bs, env')"
  shows "readSectors_loop c env t numSectors addr off buf = Some (ok, store buf off bs, c, env')"
  using assms
  by (subst readSectors_loop.simps)
     (simp add: word_neq_0_conv [symmetric] readSectors_loop_zero)

lemma writeSectors_loop_bypass:
  assumes "numSectors \<noteq> 0" and "(addr + off) mod 32 = 0"
    and "t mod ucast (sectorsPerPage c) = 0"
    and "bypassSectors c t numSectors = numSectors"
    and "dev_write (disc c) env t numSectors
           (fetch buf off (unat (numSectors * ucast (bytesPerSector c)))) = (ok, env')"
  shows "writeSectors_loop c env t numSectors addr off buf = Some (Returns (ok, c, env'))"
  using assms
  by (subst writeSectors_loop.simps)
     (simp add: word_neq_0_conv [symmetric] writeSectors_loop_zero)

subsection \<open>A slot in use that holds no sector\<close>

lemma stalled_no_cover:
  assumes "stalled c env"
  shows "\<forall>e\<in>set (take (unat (numberOfPages c)) (cacheEntries c)). \<not> covers e 64"
  using assms by (auto simp: stalled_def covers_def dest!: in_set_takeD)

lemma stalled_scan:
  assumes s: "stalled c env"
  shows "\<exists>ff v. scanPages (take (unat (numberOfPages c)) (cacheEntries c)) 64 0 False 0 UINT_MAX
           = Miss ff v \<and> v < 4"
proof -
  let ?es = "take (unat (numberOfPages c)) (cacheEntries c)"
  have len: "length ?es = 4" using s by (simp add: stalled_def)
  have "scan_inv [] False 0 UINT_MAX" by (simp add: scan_inv_def)
  from scanPages_inv [OF this stalled_no_cover [OF s]]
  obtain ff v oa where m: "scanPages ?es 64 0 False 0 UINT_MAX = Miss ff v"
    and i: "scan_inv ?es ff v oa" by auto
  from len have ne: "?es \<noteq> []" by auto
  from i ne len have "v < 4" by (cases ff) (auto simp: scan_inv_def)
  with m show ?thesis by blast
qed

lemma stalled_setEntry:
  assumes s: "stalled c env" and d: "device env' = []" and i: "i < 4"
    and e: "count e' = 0" "dirty e' = 0" "sector e' = 64"
  shows "stalled (setEntry c i e') env'"
proof -
  have sub: "set ((cacheEntries c)[i := e']) \<subseteq> insert e' (set (cacheEntries c))"
    by (rule set_update_subset_insert)
  have mem: "e' \<in> set ((cacheEntries c)[i := e'])"
    using i s by (simp add: set_update_memI stalled_def)
  have old: "\<forall>x\<in>set (cacheEntries c).
      count x = 0 \<and> dirty x = 0 \<and> (sector x = CACHE_FREE \<or> sector x = 64)"
    using s by (simp add: stalled_def)
  have all: "\<forall>x\<in>set ((cacheEntries c)[i := e']).
      count x = 0 \<and> dirty x = 0 \<and> (sector x = CACHE_FREE \<or> sector x = 64)"
  proof
    fix x assume "x \<in> set ((cacheEntries c)[i := e'])"
    with sub have "x = e' \<or> x \<in> set (cacheEntries c)" by auto
    then show "count x = 0 \<and> dirty x = 0 \<and> (sector x = CACHE_FREE \<or> sector x = 64)"
      using old e by auto
  qed
  have ex: "\<exists>x\<in>set ((cacheEntries c)[i := e']). sector x = 64"
    using mem e by (intro bexI [of _ e']) simp_all
  from s have "disc c = scripted_disc \<and> (ucast (endOfPartition c - 64) :: uint) = 0 \<and>
     numberOfPages c = 4 \<and> sectorsPerPage c = 32 \<and> length (cacheEntries c) = 4"
    by (simp add: stalled_def)
  with all ex d show ?thesis by (simp add: stalled_def setEntry_def)
qed

lemma stalled_getPage:
  assumes s: "stalled c env"
  shows "\<exists>i c' env'. NTFS_cache_getPage c env 64 32 write = (Some i, c', env') \<and>
           stalled c' env' \<and> i < 4 \<and> count (cacheEntries c' ! i) = 0 \<and>
           dirty (cacheEntries c' ! i) = 0 \<and> sector (cacheEntries c' ! i) = 64"
proof -
  from stalled_scan [OF s] obtain ff v
    where m: "scanPages (take (unat (numberOfPages c)) (cacheEntries c)) 64 0 False 0 UINT_MAX
           = Miss ff v" and v: "v < 4" by blast
  let ?e = "cacheEntries c ! v"
  from s v have e: "count ?e = 0" "dirty ?e = 0" by (auto simp: stalled_def)
  from s have f: "disc c = scripted_disc" "device env = []"
    "(ucast (endOfPartition c - 64) :: uint) = 0" "sectorsPerPage c = 32"
    "length (cacheEntries c) = 4" "numberOfPages c = 4"
    by (auto simp: stalled_def)
  have "\<exists>e' env'. NTFS_cache_getPage c env 64 32 write = (Some v, setEntry c v e', env') \<and>
          device env' = [] \<and> count e' = 0 \<and> dirty e' = 0 \<and> sector e' = 64"
  proof (cases "write")
    case True
    let ?e' = "?e\<lparr>sector := 64, count := 0, last_access := accessCounter env + 1\<rparr>"
    have "NTFS_cache_getPage c env 64 32 write =
            (Some v, setEntry c v ?e', env\<lparr>accessCounter := accessCounter env + 1\<rparr>)"
      using m e f True
      by (simp add: NTFS_cache_getPage_def evict_def populate_def rebase_def clampSectors_def
          readWindow_def accessTime_def Let_def)
    moreover have "count ?e' = 0 \<and> dirty ?e' = 0 \<and> sector ?e' = 64" using e by simp
    ultimately show ?thesis using f by (intro exI [of _ ?e'] exI) auto
  next
    case False
    let ?e' = "?e\<lparr>sector := 64, count := 0, cache := buf_store (cache ?e) 0 [],
                   last_access := accessCounter env + 1\<rparr>"
    have "NTFS_cache_getPage c env 64 32 write =
            (Some v, setEntry c v ?e',
             env\<lparr>device := [], io_log := io_log env @ [DevRead 64 0 True],
                 accessCounter := accessCounter env + 1\<rparr>)"
      using m e f False
      by (simp add: NTFS_cache_getPage_def evict_def populate_def rebase_def clampSectors_def
          readWindow_def dev_read_def accessTime_def Let_def scripted_disc_def)
    moreover have "count ?e' = 0 \<and> dirty ?e' = 0 \<and> sector ?e' = 64" using e by simp
    ultimately show ?thesis by (intro exI [of _ ?e'] exI) auto
  qed
  then obtain e' env'
    where g: "NTFS_cache_getPage c env 64 32 write = (Some v, setEntry c v e', env')"
      and d: "device env' = []" and e': "count e' = 0" "dirty e' = 0" "sector e' = 64"
    by blast
  have st: "stalled (setEntry c v e') env'" by (rule stalled_setEntry [OF s d v e'])
  have "cacheEntries (setEntry c v e') ! v = e'" using v f by (simp add: setEntry_def)
  with g st v e' show ?thesis by auto
qed

lemma stalled_bypass:
  assumes s: "stalled c env"
  shows "bypassSectors c 64 32 = 0"
proof -
  let ?es = "take (unat (numberOfPages c)) (cacheEntries c)"
  from s have es: "?es = cacheEntries c" by (simp add: stalled_def)
  from s obtain e where e: "e \<in> set (cacheEntries c)" "sector e = 64"
    by (auto simp: stalled_def)
  then have "sector e \<noteq> CACHE_FREE \<and> intersect e 64 32 \<and> sector e < CACHE_FREE"
    by (simp add: intersect_def CACHE_FREE_def)
  with e have "findPage_loop ?es 64 32 0 None CACHE_FREE \<noteq> None"
    unfolding es by (intro findPage_loop_found) blast
  then obtain k where k: "findPage_loop ?es 64 32 0 None CACHE_FREE = Some k" by auto
  from findPage_loop_some [OF this]
  have kl: "k < length (cacheEntries c)" and ki: "intersect (cacheEntries c ! k) 64 32"
    unfolding es by auto
  from kl s have "sector (cacheEntries c ! k) = CACHE_FREE \<or> sector (cacheEntries c ! k) = 64"
    by (auto simp: stalled_def)
  moreover from kl s have "count (cacheEntries c ! k) = 0" by (auto simp: stalled_def)
  ultimately have "sector (cacheEntries c ! k) = 64"
    using ki by (auto simp: intersect_def CACHE_FREE_def)
  with k show ?thesis by (simp add: bypassSectors_def NTFS_cache_findPage_def)
qed

lemma stalled_read_no_result:
  assumes "readSectors_loop c env t n addr off buf = Some y"
  shows "t = 64 \<longrightarrow> n = 32 \<longrightarrow> stalled c env \<longrightarrow> False"
  using assms
proof (rule readSectors_loop.raw_induct
    [where P = "\<lambda>c env t n addr off buf y. t = 64 \<longrightarrow> n = 32 \<longrightarrow> stalled c env \<longrightarrow> False",
     rotated 1], goal_cases)
  case (1 loop c env t n addr off buf y)
  show ?case
  proof (intro impI)
    assume t: "t = 64" and n: "n = 32" and s: "stalled c env"
    from stalled_getPage [OF s, of False] obtain i c' env'
      where g: "NTFS_cache_getPage c env 64 32 False = (Some i, c', env')"
        and s': "stalled c' env'" and cnt: "count (cacheEntries c' ! i) = 0"
        and sec: "sector (cacheEntries c' ! i) = 64" by blast
    from 1(2) obtain buf' off' where "loop c' env' 64 32 addr off' buf' = Some y"
      unfolding t n by (simp add: stalled_bypass [OF s] g cnt sec Let_def)
    from 1(1) [OF this] s' show False by simp
  qed
qed

lemma stalled_write_no_result:
  assumes "writeSectors_loop c env t n addr off buf = Some y"
  shows "t = 64 \<longrightarrow> n = 32 \<longrightarrow> stalled c env \<longrightarrow> False"
  using assms
proof (rule writeSectors_loop.raw_induct
    [where P = "\<lambda>c env t n addr off buf y. t = 64 \<longrightarrow> n = 32 \<longrightarrow> stalled c env \<longrightarrow> False",
     rotated 1], goal_cases)
  case (1 loop c env t n addr off buf y)
  show ?case
  proof (intro impI)
    assume t: "t = 64" and n: "n = 32" and s: "stalled c env"
    from stalled_getPage [OF s, of True] obtain i c' env'
      where g: "NTFS_cache_getPage c env 64 32 True = (Some i, c', env')"
        and s': "stalled c' env'" and i: "i < 4" and cnt: "count (cacheEntries c' ! i) = 0"
        and dty: "dirty (cacheEntries c' ! i) = 0"
        and sec: "sector (cacheEntries c' ! i) = 64" by blast
    from s' have d: "device env' = []" by (simp add: stalled_def)
    from 1(2) obtain e' off' where l: "loop (setEntry c' i e') env' 64 32 addr off' buf = Some y"
      and e': "count e' = 0" "dirty e' = 0" "sector e' = 64"
      unfolding t n
      by (simp add: stalled_bypass [OF s] g cnt sec dty Let_def dirtyMask_def shl64_def)
    have "stalled (setEntry c' i e') env'" by (rule stalled_setEntry [OF s' d i e'])
    with 1(1) [OF l] show False by simp
  qed
qed

lemma stalled_read: "stalled c env \<Longrightarrow> readSectors_loop c env 64 32 addr off buf = None"
  using stalled_read_no_result [of c env 64 32 addr off buf]
  by (cases "readSectors_loop c env 64 32 addr off buf") auto

lemma stalled_write: "stalled c env \<Longrightarrow> writeSectors_loop c env 64 32 addr off buf = None"
  using stalled_write_no_result [of c env 64 32 addr off buf]
  by (cases "writeSectors_loop c env 64 32 addr off buf") auto


lemma stalled_empty_slot:
  "stalled cache_empty_slot (env_empty_slot\<lparr>io_log := evs\<rparr>)"
  by (simp add: stalled_def cache_empty_slot_def cache_part64_def env_empty_slot_def
      empty_slot_def free_entry_def)

text \<open>
  Claim C4, as stated, fails when a slot in use holds no sector. On a partition of 64
  sectors a partial read of sector 64 returns true and leaves slot 0 in use for the page of
  sector 64, with a count of 0: the slot covers no sector, so no slot in use has a sector
  in common with the 96 sectors from sector 0. \<open>_NTFS_cache_findPage\<close> does not look at
  the count of a slot that begins at or behind the first sector of the transfer, so the
  first device call of an aligned transfer of these 96 sectors is for 64 sectors only. For
  the 32 sectors left, \<open>_NTFS_cache_getPage\<close> fills a slot with a count of 0 again, no
  sector is copied, and the loop starts over: with a device that answers every call with
  success, neither \<open>_NTFS_cache_readSectors\<close> nor \<open>_NTFS_cache_writeSectors\<close> returns.
\<close>

theorem empty_slot_counterexample:
  "NTFS_cache_constructor good_alloc 4 32 scripted_disc 64 512 = Some cache_part64 \<and>
   NTFS_cache_readPartialSector cache_part64 env0 [] 64 0 1 =
     (True, [0], cache_empty_slot, env_empty_slot) \<and>
   sector (cacheEntries cache_empty_slot ! 0) = 64 \<and>
   count (cacheEntries cache_empty_slot ! 0) = 0 \<and>
   \<not> ranges_meet (cacheEntries cache_empty_slot ! 0) 0 (3 * unat (sectorsPerPage cache_empty_slot)) \<and>
   sector (cacheEntries cache_empty_slot ! 1) = CACHE_FREE \<and>
   sector (cacheEntries cache_empty_slot ! 2) = CACHE_FREE \<and>
   sector (cacheEntries cache_empty_slot ! 3) = CACHE_FREE \<and>
   length (cacheEntries cache_empty_slot) = 4 \<and>
   (0 :: nat) mod 32 = 0 \<and> (0 :: sec_t) mod ucast (sectorsPerPage cache_empty_slot) = 0 \<and>
   unat (96 :: sec_t) = 3 * unat (sectorsPerPage cache_empty_slot) \<and>
   bypassSectors cache_empty_slot 0 96 = 64 \<and>
   NTFS_cache_readSectors cache_empty_slot env_empty_slot 0 96 0 [] = None \<and>
   NTFS_cache_writeSectors cache_empty_slot env_empty_slot 0 96 0 (replicate 49152 7) = None"
proof -
  have c: "NTFS_cache_constructor good_alloc 4 32 scripted_disc 64 512 = Some cache_part64"
    by (simp add: NTFS_cache_constructor_def good_alloc_def cache_part64_def free_entry_def
        CACHE_FREE_def upt_rec)
  have r: "NTFS_cache_readPartialSector cache_part64 env0 [] 64 0 1 =
     (True, [0], cache_empty_slot, env_empty_slot)"
    by (simp add: cache_part64_def cache_empty_slot_def empty_slot_def env_empty_slot_def
        env0_def free_entry_def scripted_disc_def NTFS_cache_readPartialSector_def getPage_eval
        store_def buf_fetch_def buf_store_def fetch_def)
  have h: "sector (cacheEntries cache_empty_slot ! 0) = 64 \<and>
   count (cacheEntries cache_empty_slot ! 0) = 0 \<and>
   \<not> ranges_meet (cacheEntries cache_empty_slot ! 0) 0 (3 * unat (sectorsPerPage cache_empty_slot)) \<and>
   sector (cacheEntries cache_empty_slot ! 1) = CACHE_FREE \<and>
   sector (cacheEntries cache_empty_slot ! 2) = CACHE_FREE \<and>
   sector (cacheEntries cache_empty_slot ! 3) = CACHE_FREE \<and>
   length (cacheEntries cache_empty_slot) = 4 \<and>
   (0 :: nat) mod 32 = 0 \<and> (0 :: sec_t) mod ucast (sectorsPerPage cache_empty_slot) = 0 \<and>
   unat (96 :: sec_t) = 3 * unat (sectorsPerPage cache_empty_slot)"
    by (simp add: cache_empty_slot_def cache_part64_def empty_slot_def free_entry_def
        slot_range_def ranges_meet_def)
  have b: "bypassSectors cache_empty_slot 0 96 = 64"
    by (simp add: bypassSectors_def NTFS_cache_findPage_def intersect_def cache_empty_slot_def
        cache_part64_def empty_slot_def free_entry_def CACHE_FREE_def)
  have f: "disc cache_empty_slot = scripted_disc" "sectorsPerPage cache_empty_slot = 32"
    "bytesPerSector cache_empty_slot = 512" "device env_empty_slot = []"
    by (simp_all add: cache_empty_slot_def cache_part64_def env_empty_slot_def)
  have d: "readSectors scripted_disc [] s n = (True, replicate (unat n * 512) 0, [])"
    "writeSectors scripted_disc [] s n bs = (True, [])" for s n bs
    by (simp_all add: scripted_disc_def)
  have e: "env_empty_slot\<lparr>device := [], io_log := io_log env_empty_slot @ evs\<rparr> =
           env_empty_slot\<lparr>io_log := DevRead 64 0 True # evs\<rparr>" for evs
    by (simp add: env_empty_slot_def)
  have "readSectors_loop cache_empty_slot env_empty_slot 0 96 0 0 [] =
          readSectors_loop cache_empty_slot
            (env_empty_slot\<lparr>io_log := [DevRead 64 0 True, DevRead 0 64 True]\<rparr>) 64 32 0 32768
            (store [] 0 (replicate 32768 0))"
    by (subst readSectors_loop.simps) (simp add: b f d e Let_def dev_read_def)
  also have "\<dots> = None" by (rule stalled_read [OF stalled_empty_slot])
  finally have rd: "NTFS_cache_readSectors cache_empty_slot env_empty_slot 0 96 0 [] = None"
    by (simp add: NTFS_cache_readSectors_def)
  have "writeSectors_loop cache_empty_slot env_empty_slot 0 96 0 0 (replicate 49152 7) =
          writeSectors_loop cache_empty_slot
            (env_empty_slot\<lparr>io_log := [DevRead 64 0 True, DevWrite 0 64 True]\<rparr>) 64 32 0 32768
            (replicate 49152 7)"
    by (subst writeSectors_loop.simps) (simp add: b f d e Let_def dev_write_def)
  also have "\<dots> = None" by (rule stalled_write [OF stalled_empty_slot])
  finally have wr:
    "NTFS_cache_writeSectors cache_empty_slot env_empty_slot 0 96 0 (replicate 49152 7) = None"
    by (simp add: NTFS_cache_writeSectors_def)
  from c r h b rd wr show ?thesis by blast
qed

text \<open>
  The count of line 154 is 0 as well when the partition has \<open>2 ^ 32 + 64\<close> sectors: the
  difference of 64 bits is assigned to the 32-bit \<open>count\<close> before it is compared with the
  page size. There sector 64 is in the partition, and so are the 96 sectors from sector 0.
\<close>

lemma truncated_count_stall:
  "NTFS_cache_constructor good_alloc 4 32 scripted_disc 0x100000040 512 = Some cache_big64 \<and>
   NTFS_cache_readPartialSector cache_big64 env0 [] 64 0 1 =
     (True, [0], cache_big64_empty_slot, env_empty_slot) \<and>
   NTFS_cache_readSectors cache_big64_empty_slot env_empty_slot 0 96 0 [] = None"
proof -
  have c: "NTFS_cache_constructor good_alloc 4 32 scripted_disc 0x100000040 512
             = Some cache_big64"
    by (simp add: NTFS_cache_constructor_def good_alloc_def cache_big64_def free_entry_def
        CACHE_FREE_def upt_rec)
  have r: "NTFS_cache_readPartialSector cache_big64 env0 [] 64 0 1 =
     (True, [0], cache_big64_empty_slot, env_empty_slot)"
    by (simp add: cache_big64_def cache_big64_empty_slot_def empty_slot_def env_empty_slot_def
        env0_def free_entry_def scripted_disc_def NTFS_cache_readPartialSector_def getPage_eval
        store_def buf_fetch_def buf_store_def fetch_def)
  have b: "bypassSectors cache_big64_empty_slot 0 96 = 64"
    by (simp add: bypassSectors_def NTFS_cache_findPage_def intersect_def
        cache_big64_empty_slot_def cache_big64_def empty_slot_def free_entry_def CACHE_FREE_def)
  have f: "disc cache_big64_empty_slot = scripted_disc"
    "sectorsPerPage cache_big64_empty_slot = 32"
    "bytesPerSector cache_big64_empty_slot = 512" "device env_empty_slot = []"
    by (simp_all add: cache_big64_empty_slot_def cache_big64_def env_empty_slot_def)
  have d: "readSectors scripted_disc [] s n = (True, replicate (unat n * 512) 0, [])" for s n
    by (simp add: scripted_disc_def)
  have e: "env_empty_slot\<lparr>device := [], io_log := io_log env_empty_slot @ evs\<rparr> =
           env_empty_slot\<lparr>io_log := DevRead 64 0 True # evs\<rparr>" for evs
    by (simp add: env_empty_slot_def)
  have s: "stalled cache_big64_empty_slot (env_empty_slot\<lparr>io_log := evs\<rparr>)" for evs
    by (simp add: stalled_def cache_big64_empty_slot_def cache_big64_def env_empty_slot_def
        empty_slot_def free_entry_def)
  have "readSectors_loop cache_big64_empty_slot env_empty_slot 0 96 0 0 [] =
          readSectors_loop cache_big64_empty_slot
            (env_empty_slot\<lparr>io_log := [DevRead 64 0 True, DevRead 0 64 True]\<rparr>) 64 32 0 32768
            (store [] 0 (replicate 32768 0))"
    by (subst readSectors_loop.simps) (simp add: b f d e Let_def dev_read_def)
  also have "\<dots> = None" by (rule stalled_read [OF s])
  finally have rd: "NTFS_cache_readSectors cache_big64_empty_slot env_empty_slot 0 96 0 [] = None"
    by (simp add: NTFS_cache_readSectors_def)
  from c r rd show ?thesis by blast
qed

text \<open>
  In a state that satisfies the invariant \<open>cache_inv\<close> of the last section, every slot in
  use holds at least one sector.
\<close>

lemma inv_slots_nonempty:
  assumes "cache_inv c" and "e \<in> set (cacheEntries c)" and "sector e \<noteq> CACHE_FREE"
  shows "count e \<noteq> 0"
proof -
  from assms have ok: "slot_ok c e" and S: "sectorsPerPage c \<noteq> 0" by (auto simp: cache_inv_def)
  from S have "0 < unat (sectorsPerPage c)" by (simp add: unat_gt_0)
  with ok assms(3) have "0 < unat (count e)" by (simp add: slot_ok_def)
  then show ?thesis by (simp add: unat_gt_0)
qed

subsection \<open>The bypass\<close>

text \<open>
  Claim C4, amended. Let every slot in use hold at least one sector, and let none of them
  have a sector in common with the \<open>k * S\<close> sectors from \<open>t\<close>, where \<open>S\<close> is the page size,
  \<open>k \<ge> 1\<close>, \<open>t\<close> is a multiple of \<open>S\<close> and the buffer address a multiple of 32. Then
  \<open>_NTFS_cache_readSectors\<close> and \<open>_NTFS_cache_writeSectors\<close> for these \<open>k * S\<close> sectors
  issue one device call, for all the sectors from \<open>t\<close>, return what the device returned,
  and leave the cache and the access counter as they were.
\<close>

theorem aligned_bulk_transfer_bypasses:
  assumes slots: "\<forall>e\<in>set (take (unat (numberOfPages c)) (cacheEntries c)).
                    sector e \<noteq> CACHE_FREE \<longrightarrow>
                    count e \<noteq> 0 \<and> \<not> ranges_meet e t (k * unat (sectorsPerPage c))"
    and S: "sectorsPerPage c \<noteq> 0"
    and al: "addr mod 32 = 0"
    and pg: "t mod ucast (sectorsPerPage c) = 0"
    and n: "unat numSectors = k * unat (sectorsPerPage c)"
    and k: "1 \<le> k"
  shows "(\<exists>ok bs dev'.
            readSectors (disc c) (device env) t numSectors = (ok, bs, dev') \<and>
            NTFS_cache_readSectors c env t numSectors addr buf =
              Some (ok, store buf 0 bs, c,
                    env\<lparr>device := dev', io_log := io_log env @ [DevRead t numSectors ok]\<rparr>)) \<and>
         (\<exists>ok dev'.
            writeSectors (disc c) (device env) t numSectors
              (fetch buf 0 (unat (numSectors * ucast (bytesPerSector c)))) = (ok, dev') \<and>
            NTFS_cache_writeSectors c env t numSectors addr buf =
              Some (Returns (ok, c,
                    env\<lparr>device := dev', io_log := io_log env @ [DevWrite t numSectors ok]\<rparr>)))"
proof -
  have "0 < unat (sectorsPerPage c)" using S by (simp add: unat_gt_0)
  with n k have "0 < unat numSectors" by simp
  then have nz: "numSectors \<noteq> 0" by (simp add: unat_gt_0)
  have "\<forall>e\<in>set (take (unat (numberOfPages c)) (cacheEntries c)).
          sector e \<noteq> CACHE_FREE \<longrightarrow> \<not> intersect e t numSectors"
    using slots intersect_meets [OF _ _ nz, of _ t] n by auto
  then have fp: "NTFS_cache_findPage c t numSectors = None"
    unfolding NTFS_cache_findPage_def by (rule findPage_loop_none)
  have bp: "bypassSectors c t numSectors = numSectors"
    using whole_pages [OF n S] by (simp add: bypassSectors_def fp)
  have al0: "(addr + 0) mod 32 = 0" using al by simp
  obtain ok bs dev' where r: "readSectors (disc c) (device env) t numSectors = (ok, bs, dev')"
    by (cases "readSectors (disc c) (device env) t numSectors") auto
  then have dr: "dev_read (disc c) env t numSectors =
      (ok, bs, env\<lparr>device := dev', io_log := io_log env @ [DevRead t numSectors ok]\<rparr>)"
    by (simp add: dev_read_def)
  obtain wok wdev where w: "writeSectors (disc c) (device env) t numSectors
              (fetch buf 0 (unat (numSectors * ucast (bytesPerSector c)))) = (wok, wdev)"
    by (cases "writeSectors (disc c) (device env) t numSectors
              (fetch buf 0 (unat (numSectors * ucast (bytesPerSector c))))") auto
  then have dw: "dev_write (disc c) env t numSectors
              (fetch buf 0 (unat (numSectors * ucast (bytesPerSector c)))) =
      (wok, env\<lparr>device := wdev, io_log := io_log env @ [DevWrite t numSectors wok]\<rparr>)"
    by (simp add: dev_write_def)
  have A: "NTFS_cache_readSectors c env t numSectors addr buf =
              Some (ok, store buf 0 bs, c,
                    env\<lparr>device := dev', io_log := io_log env @ [DevRead t numSectors ok]\<rparr>)"
    unfolding NTFS_cache_readSectors_def
    by (rule readSectors_loop_bypass [OF nz al0 pg bp dr])
  have B: "NTFS_cache_writeSectors c env t numSectors addr buf =
              Some (Returns (wok, c,
                    env\<lparr>device := wdev, io_log := io_log env @ [DevWrite t numSectors wok]\<rparr>))"
    unfolding NTFS_cache_writeSectors_def
    by (rule writeSectors_loop_bypass [OF nz al0 pg bp dw])
  from r A w B show ?thesis by blast
qed


theorem aligned_bulk_transfer_bypasses_witness:
  "\<not> (\<exists>e\<in>set (take (unat (numberOfPages cache2)) (cacheEntries cache2)).
         sector e \<noteq> CACHE_FREE \<and>
         (count e = 0 \<or> ranges_meet e 64 (2 * unat (sectorsPerPage cache2)))) \<and>
   sectorsPerPage cache2 \<noteq> 0 \<and> (64 :: nat) mod 32 = 0 \<and>
   (64 :: sec_t) mod ucast (sectorsPerPage cache2) = 0 \<and>
   unat (64 :: sec_t) = 2 * unat (sectorsPerPage cache2) \<and> (1 :: nat) \<le> 2 \<and>
   NTFS_cache_readSectors cache2 env0 64 64 64 [] =
     Some (True, store [] 0 (replicate 32768 0), cache2,
           \<lparr>accessCounter = 0, device = [], io_log = [DevRead 64 64 True]\<rparr>) \<and>
   NTFS_cache_writeSectors cache2 env0 64 64 64 (replicate 32768 7) =
     Some (Returns (True, cache2,
           \<lparr>accessCounter = 0, device = [], io_log = [DevWrite 64 64 True]\<rparr>))"
proof -
  have slots: "\<forall>e\<in>set (take (unat (numberOfPages cache2)) (cacheEntries cache2)).
                    sector e \<noteq> CACHE_FREE \<longrightarrow>
                    count e \<noteq> 0 \<and> \<not> ranges_meet e 64 (2 * unat (sectorsPerPage cache2))"
    by (simp add: cache2_def page_entry_def free_entry_def CACHE_FREE_def ranges_meet_def)
  have S: "sectorsPerPage cache2 \<noteq> 0" by (simp add: cache2_def)
  have al: "(64 :: nat) mod 32 = 0" by simp
  have pg: "(64 :: sec_t) mod ucast (sectorsPerPage cache2) = 0" by (simp add: cache2_def)
  have n: "unat (64 :: sec_t) = 2 * unat (sectorsPerPage cache2)" by (simp add: cache2_def)
  have k: "(1 :: nat) \<le> 2" by simp
  have r: "readSectors (disc cache2) (device env0) 64 64 = (True, replicate 32768 0, [])"
    by (simp add: cache2_def env0_def scripted_disc_def)
  have w: "writeSectors (disc cache2) (device env0) 64 64 bs = (True, [])" for bs
    by (simp add: cache2_def env0_def scripted_disc_def)
  have e: "env0\<lparr>device := [], io_log := io_log env0 @ [ev]\<rparr> =
           \<lparr>accessCounter = 0, device = [], io_log = [ev]\<rparr>" for ev
    by (simp add: env0_def)
  note T = aligned_bulk_transfer_bypasses [OF slots S al pg n k, of env0]
  from T [of "[]"] r have A: "NTFS_cache_readSectors cache2 env0 64 64 64 [] =
     Some (True, store [] 0 (replicate 32768 0), cache2,
           \<lparr>accessCounter = 0, device = [], io_log = [DevRead 64 64 True]\<rparr>)"
    by (auto simp: e)
  from T [of "replicate 32768 7"] w
  have B: "NTFS_cache_writeSectors cache2 env0 64 64 64 (replicate 32768 7) =
     Some (Returns (True, cache2,
           \<lparr>accessCounter = 0, device = [], io_log = [DevWrite 64 64 True]\<rparr>))"
    by (auto simp: e)
  from slots S al pg n k A B show ?thesis by blast
qed

section \<open>The dirty bitmap of a cached write\<close>

text \<open>
  For fewer than 64 sectors written at a sector offset below 64, line 386 sets the bits
  of the sectors written and leaves the other bits of the bitmap as they are.
\<close>

lemma dirtyMask_below_64:
  assumes w: "w < 64" and l: "local < 64"
  shows "\<exists>m. dirtyMask w local = Some m \<and>
           (\<forall>k<64. bit (d OR m) k \<longleftrightarrow> bit d k \<or> (unat local \<le> k \<and> k < unat local + unat w))"
proof -
  have m: "dirtyMask w local = Some (push_bit (unat local) (mask (unat w)))"
    using w l by (simp add: dirtyMask_def shl64_def mask_eq_exp_minus_1)
  have "bit (d OR push_bit (unat local) (mask (unat w) :: 64 word)) k \<longleftrightarrow>
          bit d k \<or> (unat local \<le> k \<and> k < unat local + unat w)" if "k < 64" for k
    using that by (auto simp: bit_simps)
  with m show ?thesis by simp
qed

text \<open>
  Claim C5 at \<open>w = 64\<close>. With pages of 64 sectors, a write of a whole page from a buffer
  that is not 32-byte aligned takes the cached path with \<open>secs_to_write = 64\<close>, and line
  386 shifts \<open>1ULL\<close> by 64, which C leaves undefined: the model has no bitmap to report
  for this call.
\<close>

theorem full_page_cached_write_undefined:
  "NTFS_cache_constructor good_alloc 4 128 scripted_disc 4096 512 = Some cache64 \<and>
   dirtyMask 64 0 = None \<and>
   NTFS_cache_writeSectors cache64 env0 0 64 1 (replicate 32768 0xAA) = Some Undefined"
proof -
  have a: "NTFS_cache_constructor good_alloc 4 128 (scripted_disc :: bool list DISC_INTERFACE)
             4096 512 = Some cache64"
    by (simp add: NTFS_cache_constructor_def good_alloc_def cache64_def free_entry64_def
        upt_rec CACHE_FREE_def)
  have b: "dirtyMask 64 0 = None" by (simp add: dirtyMask_def shl64_def)
  have c: "NTFS_cache_writeSectors cache64 env0 0 64 1 (replicate 32768 0xAA) = Some Undefined"
    unfolding NTFS_cache_writeSectors_def
    by (subst writeSectors_loop.simps)
       (simp add: cache64_def free_entry64_def env0_def scripted_disc_def getPage_eval
          dirtyMask_def shl64_def)
  from a b c show ?thesis by blast
qed

section \<open>Alignment and disjointness of the slots\<close>


lemma rebase_fields:
  "last_access (rebase c e t) = last_access e \<and> dirty (rebase c e t) = dirty e \<and>
   cache (rebase c e t) = cache e \<and>
   sector (rebase c e t) = (t div ucast (sectorsPerPage c)) * ucast (sectorsPerPage c)"
  by (simp add: rebase_def Let_def)




lemma slot_ok_shape:
  "sector e' = sector e \<Longrightarrow> count e' = count e \<Longrightarrow> sectorsPerPage c' = sectorsPerPage c \<Longrightarrow>
   endOfPartition c' = endOfPartition c \<Longrightarrow> slot_ok c' e' = slot_ok c e"
  by (simp add: slot_ok_def)






lemma evict_cases:
  assumes "evict c ff e0 env = (Some e, env')"
  shows "e = e0 \<or> e = e0\<lparr>dirty := 0\<rparr>"
  using assms by (auto simp: evict_def split: if_splits prod.splits)






























lemma same_base_not_disjoint:
  assumes "1 < length (cacheEntries c)"
    and "sector (cacheEntries c ! 0) \<noteq> CACHE_FREE"
    and "sector (cacheEntries c ! 1) = sector (cacheEntries c ! 0)"
    and "count (cacheEntries c ! 0) \<noteq> 0" and "count (cacheEntries c ! 1) \<noteq> 0"
  shows "\<not> slots_aligned_disjoint c"
proof
  assume a: "slots_aligned_disjoint c"
  let ?e0 = "cacheEntries c ! 0" and ?e1 = "cacheEntries c ! 1"
  from a assms have "slot_range ?e0 \<inter> slot_range ?e1 = {}"
    unfolding slots_aligned_disjoint_def by (metis One_nat_def less_numeral_extra(1) less_trans zero_neq_one)
  moreover from assms have "unat (sector ?e0) \<in> slot_range ?e0 \<inter> slot_range ?e1"
    by (simp add: slot_range_def unat_gt_0)
  ultimately show False by blast
qed


text \<open>
  The count of a page is stored in 32 bits before it is compared with the page size. On a
  partition of \<open>2 ^ 32 + 5\<close> sectors the page of sector 10 gets the count 5, so two
  partial reads of sector 10, which lies in the partition, load the page twice as well.
\<close>

lemma truncated_count_overlap:
  "run_ops cache_big env0 [OpReadPartial [] 10 0 1, OpReadPartial [] 10 0 1] =
     Some (cache_big\<lparr>cacheEntries :=
             [\<lparr>sector = 0, count = 5, last_access = 1, dirty = 0,
               cache = buf_store (Some (replicate 16384 0)) 0 (replicate 2560 0)\<rparr>,
              \<lparr>sector = 0, count = 5, last_access = 2, dirty = 0,
               cache = buf_store (Some (replicate 16384 0)) 0 (replicate 2560 0)\<rparr>,
              free_entry, free_entry]\<rparr>,
           \<lparr>accessCounter = 2, device = [], io_log = [DevRead 0 5 True, DevRead 0 5 True]\<rparr>) \<and>
   \<not> slots_aligned_disjoint
       (cache_big\<lparr>cacheEntries :=
             [\<lparr>sector = 0, count = 5, last_access = 1, dirty = 0,
               cache = buf_store (Some (replicate 16384 0)) 0 (replicate 2560 0)\<rparr>,
              \<lparr>sector = 0, count = 5, last_access = 2, dirty = 0,
               cache = buf_store (Some (replicate 16384 0)) 0 (replicate 2560 0)\<rparr>,
              free_entry, free_entry]\<rparr>)"
proof -
  have b: "run_ops cache_big env0 [OpReadPartial [] 10 0 1, OpReadPartial [] 10 0 1] =
     Some (cache_big\<lparr>cacheEntries :=
             [\<lparr>sector = 0, count = 5, last_access = 1, dirty = 0,
               cache = buf_store (Some (replicate 16384 0)) 0 (replicate 2560 0)\<rparr>,
              \<lparr>sector = 0, count = 5, last_access = 2, dirty = 0,
               cache = buf_store (Some (replicate 16384 0)) 0 (replicate 2560 0)\<rparr>,
              free_entry, free_entry]\<rparr>,
           \<lparr>accessCounter = 2, device = [], io_log = [DevRead 0 5 True, DevRead 0 5 True]\<rparr>)"
    by (simp add: cache_big_def fixture_eval NTFS_cache_readPartialSector_def getPage_eval)
  have c: "\<not> slots_aligned_disjoint
       (cache_big\<lparr>cacheEntries :=
             [\<lparr>sector = 0, count = 5, last_access = 1, dirty = 0,
               cache = buf_store (Some (replicate 16384 0)) 0 (replicate 2560 0)\<rparr>,
              \<lparr>sector = 0, count = 5, last_access = 2, dirty = 0,
               cache = buf_store (Some (replicate 16384 0)) 0 (replicate 2560 0)\<rparr>,
              free_entry, free_entry]\<rparr>)"
    by (rule same_base_not_disjoint) (simp_all add: CACHE_FREE_def)
  from b c show ?thesis by blast
qed



end
